theory Spec2Isabelle
  imports Main "HOL-Library.AList" "HOL-Library.Sublist"
begin

section \<open>Python values, classes and the heap\<close>

text \<open>
  The module \<^verbatim>\<open>py/dml/slotsmeta.py\<close> works on Python objects: the namespace of a class
  body (a dict), classes with their bases and method resolution order, and function
  objects with their argument specification and their attributes. Values that the code
  only passes around are \<open>pyval\<close>; an object with identity (a function, an instance) is
  a reference \<open>PObj n\<close> into the heap, so that the assignment \<^verbatim>\<open>init.cls = new_class\<close>
  is seen through every reference to the function.
\<close>

datatype pyval =
    PNone
  | PStr string
  | PTuple "pyval list"
  | PList "pyval list"
  | PObj nat

text \<open>
  A class: its identity, name, bases, the rest of its method resolution order (the class
  itself comes first and is left out), its namespace in insertion order, and whether it
  is an instance of \<^verbatim>\<open>SlotsMeta\<close>. The source creates classes and never changes one.
\<close>

datatype klass =
  Klass (kid: nat) (kname: string) (kbases: "klass list") (kmro: "klass list")
    (kdict: "(string \<times> pyval) list") (kmeta: bool)

datatype assert_arg = NoMessage | Message string | ClassArg klass

datatype pyerr = AssertionError assert_arg | TypeError | AttributeError | IndexError

text \<open>What a call of a function object runs: user code, \<^verbatim>\<open>object.__init__\<close>, or the
  closure \<^verbatim>\<open>__init\<close> that \<^verbatim>\<open>auto_init\<close> builds around \<^verbatim>\<open>fun\<close>.\<close>

datatype code = UserCode | ObjectInit | Trampoline pyval

text \<open>
  A function object: the seven fields of \<^verbatim>\<open>inspect.getfullargspec\<close>, the two
  attributes the module reads and writes (\<open>None\<close> when the attribute is not set), and
  its code.
\<close>

record func =
  f_args :: "string list"
  f_varargs :: "string option"
  f_varkw :: "string option"
  f_defaults :: "pyval list option"
  f_kwonlyargs :: "string list"
  f_kwonlydefaults :: "(string \<times> pyval) list option"
  f_annotations :: "(string \<times> pyval) list"
  auto_init_args :: "pyval option"
  fn_cls :: "klass option"
  fn_code :: code

record inst =
  icls :: klass
  iattrs :: "(string \<times> pyval) list"

datatype obj = OFun func | OInst inst

record heap =
  objs :: "(nat \<times> obj) list"
  next_id :: nat

type_synonym dict = "(string \<times> pyval) list"

definition ebind :: "pyerr + 'a \<Rightarrow> ('a \<Rightarrow> pyerr + 'b) \<Rightarrow> pyerr + 'b" where
  "ebind r k = (case r of Inl e \<Rightarrow> Inl e | Inr x \<Rightarrow> k x)"

subsection \<open>The built-in operations the module uses\<close>

text \<open>\<^verbatim>\<open>object\<close> has identity 0 and its \<^verbatim>\<open>__init__\<close> is the heap object 1.\<close>

definition object_init :: pyval where
  "object_init = PObj 1"

definition object_class :: klass where
  "object_class = Klass 0 ''object'' [] [] [(''__init__'', object_init)] False"

text \<open>\<^verbatim>\<open>inspect.getmro(c)\<close>: the class itself, then the rest of its order.\<close>

definition getmro :: "klass \<Rightarrow> klass list" where
  "getmro c = c # kmro c"

text \<open>Attribute lookup along a list of classes: the first namespace that has the name.\<close>

fun mro_lookup :: "klass list \<Rightarrow> string \<Rightarrow> pyval option" where
  "mro_lookup [] name = None"
| "mro_lookup (c # cs) name =
     (case map_of (kdict c) name of Some v \<Rightarrow> Some v | None \<Rightarrow> mro_lookup cs name)"

text \<open>\<^verbatim>\<open>c.name\<close> on a class; a name found nowhere raises \<^verbatim>\<open>AttributeError\<close>.\<close>

definition cls_getattr :: "klass \<Rightarrow> string \<Rightarrow> pyerr + pyval" where
  "cls_getattr c name =
     (case mro_lookup (getmro c) name of Some v \<Rightarrow> Inr v | None \<Rightarrow> Inl AttributeError)"

text \<open>
  \<^verbatim>\<open>c.__init__\<close> on a class. Every Python class inherits from \<^verbatim>\<open>object\<close>, so the lookup
  ends at \<^verbatim>\<open>object.__init__\<close> at the latest and never fails.
\<close>

definition cls_init :: "klass \<Rightarrow> pyval" where
  "cls_init c =
     (case mro_lookup (getmro c) ''__init__'' of Some v \<Rightarrow> v | None \<Rightarrow> object_init)"

fun truthy :: "pyval \<Rightarrow> bool" where
  "truthy PNone = False"
| "truthy (PStr s) = (s \<noteq> [])"
| "truthy (PTuple xs) = (xs \<noteq> [])"
| "truthy (PList xs) = (xs \<noteq> [])"
| "truthy (PObj n) = True"

fun py_len :: "pyval \<Rightarrow> pyerr + nat" where
  "py_len (PStr s) = Inr (length s)"
| "py_len (PTuple xs) = Inr (length xs)"
| "py_len (PList xs) = Inr (length xs)"
| "py_len v = Inl TypeError"

text \<open>\<^verbatim>\<open>v[:n]\<close> and \<^verbatim>\<open>v[n:]\<close> for \<open>n\<close> a length (never negative).\<close>

fun py_slice_to :: "pyval \<Rightarrow> nat \<Rightarrow> pyerr + pyval" where
  "py_slice_to (PStr s) n = Inr (PStr (take n s))"
| "py_slice_to (PTuple xs) n = Inr (PTuple (take n xs))"
| "py_slice_to (PList xs) n = Inr (PList (take n xs))"
| "py_slice_to v n = Inl TypeError"

fun py_slice_from :: "pyval \<Rightarrow> nat \<Rightarrow> pyerr + pyval" where
  "py_slice_from (PStr s) n = Inr (PStr (drop n s))"
| "py_slice_from (PTuple xs) n = Inr (PTuple (drop n xs))"
| "py_slice_from (PList xs) n = Inr (PList (drop n xs))"
| "py_slice_from v n = Inl TypeError"

text \<open>Iterating a value: the elements of a sequence, the characters of a string.\<close>

fun py_iter :: "pyval \<Rightarrow> pyerr + pyval list" where
  "py_iter (PStr s) = Inr (map (\<lambda>c. PStr [c]) s)"
| "py_iter (PTuple xs) = Inr xs"
| "py_iter (PList xs) = Inr xs"
| "py_iter v = Inl TypeError"

definition py_tuple :: "pyval \<Rightarrow> pyerr + pyval" where
  "py_tuple v = ebind (py_iter v) (\<lambda>xs. Inr (PTuple xs))"

text \<open>\<^verbatim>\<open>t + v\<close> for a tuple \<open>t\<close>: only another tuple can be added.\<close>

fun tuple_add :: "pyval list \<Rightarrow> pyval \<Rightarrow> pyerr + pyval" where
  "tuple_add xs (PTuple ys) = Inr (PTuple (xs @ ys))"
| "tuple_add xs v = Inl TypeError"

definition py_add :: "pyval \<Rightarrow> pyval \<Rightarrow> pyerr + pyval" where
  "py_add a b = (case a of PTuple xs \<Rightarrow> tuple_add xs b | _ \<Rightarrow> Inl TypeError)"

text \<open>\<^verbatim>\<open>dct.get(name, default)\<close>\<close>

definition dict_get :: "dict \<Rightarrow> string \<Rightarrow> pyval \<Rightarrow> pyval" where
  "dict_get dct name dflt = (case map_of dct name of Some v \<Rightarrow> v | None \<Rightarrow> dflt)"

definition heap_fun :: "heap \<Rightarrow> pyval \<Rightarrow> func option" where
  "heap_fun h v =
     (case v of
        PObj n \<Rightarrow> (case map_of (objs h) n of Some (OFun f) \<Rightarrow> Some f | _ \<Rightarrow> None)
      | _ \<Rightarrow> None)"

text \<open>\<^verbatim>\<open>inspect.getfullargspec(v)\<close>: the specification of a function object,
  \<^verbatim>\<open>TypeError\<close> for anything else.\<close>

definition getfullargspec :: "heap \<Rightarrow> pyval \<Rightarrow> pyerr + func" where
  "getfullargspec h v = (case heap_fun h v of Some f \<Rightarrow> Inr f | None \<Rightarrow> Inl TypeError)"

text \<open>\<^verbatim>\<open>getattr(v, 'auto_init_args', None)\<close>; only function objects carry the attribute.\<close>

definition getattr_auto_init_args :: "heap \<Rightarrow> pyval \<Rightarrow> pyval" where
  "getattr_auto_init_args h v =
     (case heap_fun h v of
        Some f \<Rightarrow> (case auto_init_args f of Some a \<Rightarrow> a | None \<Rightarrow> PNone)
      | None \<Rightarrow> PNone)"

text \<open>\<^verbatim>\<open>v.cls = k\<close> on a function object.\<close>

definition set_cls :: "heap \<Rightarrow> pyval \<Rightarrow> klass \<Rightarrow> heap" where
  "set_cls h v k =
     (case v of
        PObj n \<Rightarrow>
          (case map_of (objs h) n of
             Some (OFun f) \<Rightarrow> h\<lparr>objs := AList.update n (OFun (f\<lparr>fn_cls := Some k\<rparr>)) (objs h)\<rparr>
           | _ \<Rightarrow> h)
      | _ \<Rightarrow> h)"

subsection \<open>Creating the class: \<^verbatim>\<open>type.__new__\<close>\<close>

text \<open>
  The C3 merge of Python's method resolution order, on class identities: take the first
  head that is in no tail, remove it everywhere, repeat; no such head is an inconsistent
  hierarchy.
\<close>

definition c3_good :: "klass list list \<Rightarrow> klass \<Rightarrow> bool" where
  "c3_good ls c = list_all (\<lambda>l. kid c \<notin> set (map kid (tl l))) ls"

definition c3_strip :: "klass \<Rightarrow> klass list \<Rightarrow> klass list" where
  "c3_strip c l = (case l of [] \<Rightarrow> [] | x # xs \<Rightarrow> if kid x = kid c then xs else l)"

function c3_merge :: "klass list list \<Rightarrow> klass list option" where
  "c3_merge ls =
     (let ls' = filter (\<lambda>l. l \<noteq> []) ls in
      if ls' = [] then Some []
      else (case find (c3_good ls') (map hd ls') of
              None \<Rightarrow> None
            | Some c \<Rightarrow> map_option ((#) c) (c3_merge (map (c3_strip c) ls'))))"
  by pat_completeness auto

lemma c3_strip_length: "length (c3_strip c l) \<le> length l"
  by (simp add: c3_strip_def split: list.splits)

lemma c3_strip_shrinks:
  "l \<in> set ls \<Longrightarrow> l \<noteq> [] \<Longrightarrow> kid (hd l) = kid c \<Longrightarrow>
   sum_list (map (\<lambda>l. length (c3_strip c l)) ls) < sum_list (map length ls)"
proof (induction ls)
  case Nil
  then show ?case by simp
next
  case (Cons a ls)
  have rest: "sum_list (map (\<lambda>l. length (c3_strip c l)) ls) \<le> sum_list (map length ls)"
    by (rule sum_list_mono) (simp add: c3_strip_length)
  show ?case
  proof (cases "l = a")
    case True
    with Cons.prems have "length (c3_strip c a) < length a"
      by (cases a) (simp_all add: c3_strip_def)
    with rest show ?thesis by simp
  next
    case False
    with Cons have "sum_list (map (\<lambda>l. length (c3_strip c l)) ls) < sum_list (map length ls)"
      by simp
    moreover have "length (c3_strip c a) \<le> length a" by (rule c3_strip_length)
    ultimately show ?thesis by simp
  qed
qed

lemma sum_list_length_filter:
  "sum_list (map length (filter (\<lambda>l. l \<noteq> []) ls)) = sum_list (map length ls)"
  by (induction ls) auto

termination c3_merge
proof (relation "measure (\<lambda>ls. sum_list (map length ls))")
  show "wf (measure (\<lambda>ls. sum_list (map length ls)))" by simp
next
  fix ls ls' :: "klass list list" and c
  assume ls': "ls' = filter (\<lambda>l. l \<noteq> []) ls"
    and found: "find (c3_good ls') (map hd ls') = Some c"
  from found have "c \<in> set (map hd ls')"
    by (auto simp: find_Some_iff)
  then obtain l where l: "l \<in> set ls'" "c = hd l" by auto
  with ls' have "l \<noteq> []" by simp
  with l have "sum_list (map (\<lambda>l. length (c3_strip c l)) ls') < sum_list (map length ls')"
    by (intro c3_strip_shrinks[of l]) simp_all
  then show "(map (c3_strip c) ls', ls) \<in> measure (\<lambda>ls. sum_list (map length ls))"
    by (simp add: ls' sum_list_length_filter comp_def)
qed

declare c3_merge.simps [simp del]

text \<open>
  \<^verbatim>\<open>type.__new__(cls, clsname, bases, dct)\<close> as far as the module relies on it: no bases
  means \<^verbatim>\<open>object\<close>, the resolution order is the C3 merge of the bases' orders and the
  bases, the namespace becomes the class's, and the class is an instance of the
  metaclass \<^verbatim>\<open>SlotsMeta\<close>. The other refusals of \<^verbatim>\<open>type.__new__\<close> (a slot that clashes
  with a class variable, bases whose instance layouts conflict) and the descriptors it
  adds to the namespace for the slots are not modelled.
\<close>

definition type_new :: "heap \<Rightarrow> string \<Rightarrow> klass list \<Rightarrow> dict \<Rightarrow> pyerr + (klass \<times> heap)" where
  "type_new h clsname bases dct =
     (let bases' = (if bases = [] then [object_class] else bases) in
      case c3_merge (map getmro bases' @ [bases']) of
        None \<Rightarrow> Inl TypeError
      | Some m \<Rightarrow>
          Inr (Klass (next_id h) clsname bases' m dct True, h\<lparr>next_id := Suc (next_id h)\<rparr>))"

section \<open>The metaclass \<^verbatim>\<open>SlotsMeta\<close>\<close>

text \<open>
  \<^verbatim>\<open>SlotsMeta.patch_dict(dct, init_args, parent_init_args)\<close> (lines 24 to 28). The dict is
  changed in place in the source; here the changed dict is returned.
\<close>

definition patch_dict :: "dict \<Rightarrow> pyval \<Rightarrow> pyval \<Rightarrow> pyerr + dict" where
  "patch_dict dct init_args parent_init_args =
     (let dct1 = AList.update ''init_args'' init_args dct in
      ebind (py_len parent_init_args) (\<lambda>n.
      ebind (py_slice_to init_args n) (\<lambda>pre.
      if pre \<noteq> parent_init_args then Inl (AssertionError NoMessage)
      else
        ebind (py_slice_from init_args n) (\<lambda>rest.
        ebind (py_tuple rest) (\<lambda>t.
        ebind (py_add t (dict_get dct1 ''slots'' (PTuple []))) (\<lambda>s.
        Inr (AList.update ''__slots__'' s dct1)))))))"

text \<open>The two loops of lines 36 to 38: every class \<open>c\<close> in the order of every later base
  must have its \<^verbatim>\<open>__init__\<close> among \<open>all_inits\<close>; the first that has not is the
  argument of the assertion.\<close>

fun check_mro :: "pyval list \<Rightarrow> klass list \<Rightarrow> pyerr + unit" where
  "check_mro all_inits [] = Inr ()"
| "check_mro all_inits (c # cs) =
     (if cls_init c \<in> set all_inits then check_mro all_inits cs
      else Inl (AssertionError (ClassArg c)))"

fun check_bases :: "pyval list \<Rightarrow> klass list \<Rightarrow> pyerr + unit" where
  "check_bases all_inits [] = Inr ()"
| "check_bases all_inits (b # bs) =
     ebind (check_mro all_inits (getmro b)) (\<lambda>_. check_bases all_inits bs)"

text \<open>Lines 31 to 38.\<close>

definition check_linear :: "klass list \<Rightarrow> pyerr + unit" where
  "check_linear bases =
     (if length bases > 1
      then check_bases (map cls_init (getmro (hd bases))) (tl bases)
      else Inr ())"

text \<open>\<^verbatim>\<open>bases and isinstance(bases[0], SlotsMeta)\<close>\<close>

definition first_is_slotsmeta :: "klass list \<Rightarrow> bool" where
  "first_is_slotsmeta bases = (case bases of [] \<Rightarrow> False | b # _ \<Rightarrow> kmeta b)"

text \<open>Lines 42 to 44.\<close>

definition parent_init_args_of :: "klass list \<Rightarrow> pyerr + pyval" where
  "parent_init_args_of bases =
     (if first_is_slotsmeta bases then cls_getattr (hd bases) ''init_args''
      else Inr (PList [PStr ''self'']))"

definition slots_message :: string where
  "slots_message =
     ''set '' @ [CHR 0x27] @ ''slots'' @ [CHR 0x27] @ '' instead of '' @
     [CHR 0x27] @ ''__slots__'' @ [CHR 0x27]"

text \<open>
  \<^verbatim>\<open>SlotsMeta.__new__(cls, clsname, bases, dct)\<close> (lines 30 to 66). The result is the new
  class and the heap, in which \<^verbatim>\<open>init.cls\<close> is set when \<^verbatim>\<open>init\<close> came from
  \<^verbatim>\<open>auto_init\<close>. The chain \<^verbatim>\<open>varargs is varkw is kwonlydefaults is None\<close> of line 59 holds
  exactly when all three are \<^verbatim>\<open>None\<close>. Nothing is asserted about \<^verbatim>\<open>defaults\<close> here.
\<close>

definition SlotsMeta_new ::
  "heap \<Rightarrow> string \<Rightarrow> klass list \<Rightarrow> dict \<Rightarrow> pyerr + (klass \<times> heap)" where
  "SlotsMeta_new h clsname bases dct =
     ebind (check_linear bases) (\<lambda>_.
     if ''__slots__'' \<in> fst ` set dct then Inl (AssertionError (Message slots_message))
     else
       (case map_of dct ''__init__'' of
          Some init \<Rightarrow>
            ebind (parent_init_args_of bases) (\<lambda>parent_init_args.
            let init_args = getattr_auto_init_args h init in
            if truthy init_args then
              if \<not> first_is_slotsmeta bases then Inl (AssertionError NoMessage)
              else
                ebind (patch_dict dct init_args parent_init_args) (\<lambda>dct'.
                ebind (type_new h clsname bases dct') (\<lambda>(new_class, h').
                Inr (new_class, set_cls h' init new_class)))
            else
              ebind (getfullargspec h init) (\<lambda>spec.
              if \<not> (f_varargs spec = None \<and> f_varkw spec = None
                    \<and> f_kwonlydefaults spec = None)
              then Inl (AssertionError NoMessage)
              else if f_kwonlyargs spec \<noteq> [] then Inl (AssertionError NoMessage)
              else if f_annotations spec \<noteq> [] then Inl (AssertionError NoMessage)
              else
                ebind (patch_dict dct (PList (map PStr (f_args spec))) parent_init_args)
                  (\<lambda>dct'. type_new h clsname bases dct')))
        | None \<Rightarrow>
            (let dct' = AList.update ''__slots__'' (dict_get dct ''slots'' (PTuple [])) dct in
             case bases of
               [] \<Rightarrow> Inl IndexError
             | b # _ \<Rightarrow>
                 if \<not> kmeta b then Inl (AssertionError NoMessage)
                 else type_new h clsname bases dct')))"

section \<open>The decorator \<^verbatim>\<open>auto_init\<close>\<close>

text \<open>
  \<^verbatim>\<open>auto_init(fun)\<close> (lines 68 to 91) checks the signature of \<^verbatim>\<open>fun\<close> and returns a new
  function object, the trampoline \<^verbatim>\<open>__init(*args, **kwargs)\<close>. \<^verbatim>\<open>functools.wraps\<close> copies
  the annotations and the attributes of \<^verbatim>\<open>fun\<close> to it; then \<^verbatim>\<open>auto_init_args\<close> is set.
\<close>

definition auto_init :: "heap \<Rightarrow> pyval \<Rightarrow> pyerr + (pyval \<times> heap)" where
  "auto_init h fun =
     ebind (getfullargspec h fun) (\<lambda>spec.
     if \<not> (f_varargs spec = None \<and> f_varkw spec = None \<and> f_kwonlydefaults spec = None)
     then Inl (AssertionError NoMessage)
     else if (case f_defaults spec of None \<Rightarrow> False | Some ds \<Rightarrow> ds \<noteq> [])
     then Inl (AssertionError NoMessage)
     else if f_kwonlyargs spec \<noteq> [] then Inl (AssertionError NoMessage)
     else if f_annotations spec \<noteq> [] then Inl (AssertionError NoMessage)
     else
       (let init = \<lparr>f_args = [], f_varargs = Some ''args'', f_varkw = Some ''kwargs'',
                    f_defaults = None, f_kwonlyargs = [], f_kwonlydefaults = None,
                    f_annotations = f_annotations spec,
                    auto_init_args = Some (PList (map PStr (f_args spec))),
                    fn_cls = fn_cls spec, fn_code = Trampoline fun\<rparr>
        in Inr (PObj (next_id h),
                h\<lparr>objs := AList.update (next_id h) (OFun init) (objs h),
                  next_id := Suc (next_id h)\<rparr>)))"

section \<open>The trampoline \<^verbatim>\<open>__init(*args, **kwargs)\<close>\<close>

text \<open>
  The trampoline calls three things it does not define: the superclass initializer, the
  built-in \<^verbatim>\<open>setattr\<close>, and the wrapped function \<^verbatim>\<open>fun\<close>. What they do to the heap, and
  whether they raise, is given by an environment; each call is also recorded as an
  event, so that a run of the trampoline yields the calls it made, in order, and its
  result.
\<close>

datatype event =
    Call pyval "pyval list" "(string \<times> pyval) list"
  | Setattr pyval pyval pyval

record env =
  env_call :: "pyval \<Rightarrow> pyval list \<Rightarrow> (string \<times> pyval) list \<Rightarrow> heap \<Rightarrow> pyerr + heap"
  env_setattr :: "pyval \<Rightarrow> pyval \<Rightarrow> pyval \<Rightarrow> heap \<Rightarrow> pyerr + heap"

type_synonym 'a run = "event list \<times> (pyerr + 'a)"

definition tlift :: "pyerr + 'a \<Rightarrow> 'a run" where
  "tlift r = ([], r)"

definition tbind :: "'a run \<Rightarrow> ('a \<Rightarrow> 'b run) \<Rightarrow> 'b run" where
  "tbind m k =
     (case m of
        (tr, Inl e) \<Rightarrow> (tr, Inl e)
      | (tr, Inr x) \<Rightarrow> (case k x of (tr', r) \<Rightarrow> (tr @ tr', r)))"

definition do_call ::
  "env \<Rightarrow> pyval \<Rightarrow> pyval list \<Rightarrow> (string \<times> pyval) list \<Rightarrow> heap \<Rightarrow> heap run" where
  "do_call env f args kwargs h = ([Call f args kwargs], env_call env f args kwargs h)"

definition do_setattr :: "env \<Rightarrow> pyval \<Rightarrow> pyval \<Rightarrow> pyval \<Rightarrow> heap \<Rightarrow> heap run" where
  "do_setattr env self name arg h = ([Setattr self name arg], env_setattr env self name arg h)"

text \<open>\<^verbatim>\<open>for (name, arg) in pairs: setattr(self, name, arg)\<close>\<close>

fun setattr_loop :: "env \<Rightarrow> pyval \<Rightarrow> (pyval \<times> pyval) list \<Rightarrow> heap \<Rightarrow> heap run" where
  "setattr_loop env self [] h = ([], Inr h)"
| "setattr_loop env self ((name, arg) # rest) h =
     tbind (do_setattr env self name arg h) (setattr_loop env self rest)"

definition heap_inst :: "heap \<Rightarrow> pyval \<Rightarrow> inst option" where
  "heap_inst h v =
     (case v of
        PObj n \<Rightarrow> (case map_of (objs h) n of Some (OInst i) \<Rightarrow> Some i | _ \<Rightarrow> None)
      | _ \<Rightarrow> None)"

text \<open>
  \<^verbatim>\<open>super(cls, self)\<close>: the classes after \<open>cls\<close> in the resolution order of the type of
  \<open>self\<close>; \<^verbatim>\<open>TypeError\<close> when \<open>self\<close> is not an instance of \<open>cls\<close>.
\<close>

definition py_super :: "heap \<Rightarrow> klass \<Rightarrow> pyval \<Rightarrow> pyerr + klass list" where
  "py_super h c self =
     (case heap_inst h self of
        None \<Rightarrow> Inl TypeError
      | Some i \<Rightarrow>
          (let m = getmro (icls i) in
           if kid c \<in> set (map kid m)
           then Inr (tl (dropWhile (\<lambda>k. kid k \<noteq> kid c) m))
           else Inl TypeError))"

text \<open>\<^verbatim>\<open>sup.name\<close> and \<^verbatim>\<open>sup.__init__\<close> on the result of \<^verbatim>\<open>super\<close>.\<close>

definition super_getattr :: "klass list \<Rightarrow> string \<Rightarrow> pyerr + pyval" where
  "super_getattr sup_obj name =
     (case mro_lookup sup_obj name of Some v \<Rightarrow> Inr v | None \<Rightarrow> Inl AttributeError)"

definition super_init :: "klass list \<Rightarrow> pyval" where
  "super_init sup_obj =
     (case mro_lookup sup_obj ''__init__'' of Some v \<Rightarrow> v | None \<Rightarrow> object_init)"

text \<open>\<^verbatim>\<open>self.name\<close>: the instance's own attributes, then its class.\<close>

definition inst_getattr :: "heap \<Rightarrow> pyval \<Rightarrow> string \<Rightarrow> pyerr + pyval" where
  "inst_getattr h self name =
     (case heap_inst h self of
        None \<Rightarrow> Inl AttributeError
      | Some i \<Rightarrow>
          (case map_of (iattrs i) name of
             Some v \<Rightarrow> Inr v
           | None \<Rightarrow> cls_getattr (icls i) name))"

definition auto_init_message :: string where
  "auto_init_message = ''@auto_init only allowed in SlotsMeta classes''"

text \<open>
  Lines 77 to 82: the assertion on \<^verbatim>\<open>__init.cls\<close>, \<^verbatim>\<open>self = args[0]\<close>,
  \<^verbatim>\<open>sup = super(cls, self)\<close> and \<^verbatim>\<open>super_nargs = len(sup.init_args)\<close>. \<open>init\<close> is the
  trampoline's own function object.
\<close>

definition trampoline_prologue ::
  "heap \<Rightarrow> pyval \<Rightarrow> pyval list \<Rightarrow> pyerr + (pyval \<times> klass list \<times> nat)" where
  "trampoline_prologue h init args =
     (case (case heap_fun h init of Some f \<Rightarrow> fn_cls f | None \<Rightarrow> None) of
        None \<Rightarrow> Inl (AssertionError (Message auto_init_message))
      | Some cls \<Rightarrow>
          (case args of
             [] \<Rightarrow> Inl IndexError
           | self # _ \<Rightarrow>
               ebind (py_super h cls self) (\<lambda>sup_obj.
               ebind (super_getattr sup_obj ''init_args'') (\<lambda>sup_init_args.
               ebind (py_len sup_init_args) (\<lambda>super_nargs.
               Inr (self, sup_obj, super_nargs))))))"

text \<open>\<^verbatim>\<open>self.init_args[super_nargs:]\<close>, as \<^verbatim>\<open>zip\<close> iterates it (line 84).\<close>

definition later_names :: "heap \<Rightarrow> pyval \<Rightarrow> nat \<Rightarrow> pyerr + pyval list" where
  "later_names h self super_nargs =
     ebind (inst_getattr h self ''init_args'') (\<lambda>init_args.
     ebind (py_slice_from init_args super_nargs) py_iter)"

text \<open>\<^verbatim>\<open>kwargs.items()\<close>, the names as the string objects that \<^verbatim>\<open>setattr\<close> receives.\<close>

definition keyword_pairs :: "(string \<times> pyval) list \<Rightarrow> (pyval \<times> pyval) list" where
  "keyword_pairs kwargs = map (\<lambda>(name, arg). (PStr name, arg)) kwargs"

text \<open>Lines 77 to 88: everything before the call of \<^verbatim>\<open>fun\<close>.\<close>

definition trampoline_assign ::
  "env \<Rightarrow> pyval \<Rightarrow> pyval list \<Rightarrow> (string \<times> pyval) list \<Rightarrow> heap \<Rightarrow> heap run" where
  "trampoline_assign env init args kwargs h =
     tbind (tlift (trampoline_prologue h init args)) (\<lambda>(self, sup_obj, super_nargs).
     tbind (do_call env (super_init sup_obj) (self # drop 1 (take super_nargs args)) [] h) (\<lambda>h1.
     tbind (tlift (later_names h1 self super_nargs)) (\<lambda>names.
     tbind (setattr_loop env self (zip names (drop super_nargs args)) h1) (\<lambda>h2.
     setattr_loop env self (keyword_pairs kwargs) h2))))"

text \<open>The whole trampoline (lines 76 to 89) around the wrapped function \<open>fun\<close>.\<close>

definition trampoline_call ::
  "env \<Rightarrow> pyval \<Rightarrow> pyval \<Rightarrow> pyval list \<Rightarrow> (string \<times> pyval) list \<Rightarrow> heap \<Rightarrow> heap run" where
  "trampoline_call env init fun args kwargs h =
     tbind (trampoline_assign env init args kwargs h) (do_call env fun args kwargs)"

section \<open>Notions used in the statements\<close>

text \<open>
  The argument list \<^verbatim>\<open>SlotsMeta.__new__\<close> takes for an initializer (lines 47 to 58): its
  attribute \<^verbatim>\<open>auto_init_args\<close> when that is set and not empty, the argument names found
  by introspection otherwise.
\<close>

definition init_arg_names :: "heap \<Rightarrow> pyval \<Rightarrow> pyval option" where
  "init_arg_names h init =
     (let a = getattr_auto_init_args h init in
      if truthy a then Some a
      else map_option (\<lambda>f. PList (map PStr (f_args f))) (heap_fun h init))"

text \<open>
  Linear inheritance of \<^verbatim>\<open>__init__\<close>: for every base after the first, every class in
  that base's resolution order has an \<^verbatim>\<open>__init__\<close> that is the \<^verbatim>\<open>__init__\<close> of some
  class in the first base's resolution order.
\<close>

definition init_linear :: "klass list \<Rightarrow> bool" where
  "init_linear bases =
     list_all (\<lambda>b. list_all (\<lambda>c. cls_init c \<in> set (map cls_init (getmro (hd bases))))
                      (getmro b))
       (tl bases)"

text \<open>The events of assigning, in order, each value to the attribute of \<open>self\<close> that is
  paired with it.\<close>

definition assignments :: "pyval \<Rightarrow> (pyval \<times> pyval) list \<Rightarrow> event list" where
  "assignments self pairs = map (\<lambda>(name, arg). Setattr self name arg) pairs"

text \<open>The shapes of signature the module checks for.\<close>

definition variadic :: "func \<Rightarrow> bool" where
  "variadic f = (f_varargs f \<noteq> None \<or> f_varkw f \<noteq> None)"

definition keyword_only :: "func \<Rightarrow> bool" where
  "keyword_only f = (f_kwonlyargs f \<noteq> [] \<or> f_kwonlydefaults f \<noteq> None)"

definition annotated :: "func \<Rightarrow> bool" where
  "annotated f = (f_annotations f \<noteq> [])"

definition has_defaults :: "func \<Rightarrow> bool" where
  "has_defaults f = (case f_defaults f of None \<Rightarrow> False | Some ds \<Rightarrow> ds \<noteq> [])"

section \<open>An example hierarchy\<close>

text \<open>
  The functions written in the class bodies of the example, by heap address:
  \<^item> 2: \<^verbatim>\<open>def __init__(self, site)\<close>
  \<^item> 3: \<^verbatim>\<open>def __init__(self, site, expr, type): pass\<close>
  \<^item> 4: \<^verbatim>\<open>def __init__(self, site, value=None)\<close>
  \<^item> 5: \<^verbatim>\<open>def __init__(self, site, *rest)\<close>
  \<^item> 6: \<^verbatim>\<open>def __init__(self, expr)\<close>
  \<^item> 7: \<^verbatim>\<open>def __init__(self)\<close>
\<close>

definition plain_function :: "string list \<Rightarrow> func" where
  "plain_function names =
     \<lparr>f_args = names, f_varargs = None, f_varkw = None, f_defaults = None,
      f_kwonlyargs = [], f_kwonlydefaults = None, f_annotations = [],
      auto_init_args = None, fn_cls = None, fn_code = UserCode\<rparr>"

definition example_objs :: "(nat \<times> obj) list" where
  "example_objs =
     [(1, OFun ((plain_function [''self''])
             \<lparr>f_varargs := Some ''args'', f_varkw := Some ''kwargs'',
              fn_code := ObjectInit\<rparr>)),
      (2, OFun (plain_function [''self'', ''site''])),
      (3, OFun (plain_function [''self'', ''site'', ''expr'', ''type''])),
      (4, OFun ((plain_function [''self'', ''site'', ''value''])
             \<lparr>f_defaults := Some [PNone]\<rparr>)),
      (5, OFun ((plain_function [''self'', ''site''])\<lparr>f_varargs := Some ''rest''\<rparr>)),
      (6, OFun (plain_function [''self'', ''expr''])),
      (7, OFun (plain_function [''self'']))]"

definition example_heap :: heap where
  "example_heap = \<lparr>objs = example_objs, next_id = 10\<rparr>"

text \<open>\<^verbatim>\<open>class Code(metaclass=SlotsMeta): slots = ('context',); __init__\<close> is function 2.\<close>

definition code_dict :: dict where
  "code_dict = [(''__init__'', PObj 2), (''slots'', PTuple [PStr ''context''])]"

definition code_class :: klass where
  "code_class =
     Klass 10 ''Code'' [object_class] [object_class]
       [(''__init__'', PObj 2), (''slots'', PTuple [PStr ''context'']),
        (''init_args'', PList [PStr ''self'', PStr ''site'']),
        (''__slots__'', PTuple [PStr ''site'', PStr ''context''])]
       True"

text \<open>\<^verbatim>\<open>class Cast(Code)\<close> with function 3 under \<^verbatim>\<open>@auto_init\<close>; the trampoline is
  object 11.\<close>

definition cast_trampoline :: func where
  "cast_trampoline =
     \<lparr>f_args = [], f_varargs = Some ''args'', f_varkw = Some ''kwargs'',
      f_defaults = None, f_kwonlyargs = [], f_kwonlydefaults = None, f_annotations = [],
      auto_init_args = Some (PList [PStr ''self'', PStr ''site'', PStr ''expr'', PStr ''type'']),
      fn_cls = None, fn_code = Trampoline (PObj 3)\<rparr>"

definition decorated_heap :: heap where
  "decorated_heap = \<lparr>objs = example_objs @ [(11, OFun cast_trampoline)], next_id = 12\<rparr>"

definition cast_class :: klass where
  "cast_class =
     Klass 12 ''Cast'' [code_class] [code_class, object_class]
       [(''__init__'', PObj 11),
        (''init_args'', PList [PStr ''self'', PStr ''site'', PStr ''expr'', PStr ''type'']),
        (''__slots__'', PTuple [PStr ''expr'', PStr ''type''])]
       True"

definition cast_heap :: heap where
  "cast_heap =
     \<lparr>objs = example_objs @ [(11, OFun (cast_trampoline\<lparr>fn_cls := Some cast_class\<rparr>))],
      next_id = 13\<rparr>"

text \<open>\<^verbatim>\<open>class Mixin(Code): pass\<close>, \<^verbatim>\<open>class Other(metaclass=SlotsMeta)\<close> with function 7
  as its \<^verbatim>\<open>__init__\<close>, and \<^verbatim>\<open>class Both(Cast, Mixin): pass\<close>.\<close>

definition mixin_class :: klass where
  "mixin_class =
     Klass 13 ''Mixin'' [code_class] [code_class, object_class]
       [(''__slots__'', PTuple [])] True"

definition other_class :: klass where
  "other_class =
     Klass 14 ''Other'' [object_class] [object_class]
       [(''__init__'', PObj 7), (''init_args'', PList [PStr ''self'']),
        (''__slots__'', PTuple [])]
       True"

definition both_class :: klass where
  "both_class =
     Klass 15 ''Both'' [cast_class, mixin_class]
       [cast_class, mixin_class, code_class, object_class]
       [(''__slots__'', PTuple [])] True"


text \<open>
  An environment for running the trampoline in the example: instances have no
  \<^verbatim>\<open>__dict__\<close>, so \<^verbatim>\<open>setattr\<close> accepts the names in the \<^verbatim>\<open>__slots__\<close> of the classes of
  the instance's resolution order and raises \<^verbatim>\<open>AttributeError\<close> for any other;
  function 2 stores its argument in \<^verbatim>\<open>self.site\<close>, and the other functions do nothing.
\<close>

definition slot_names :: "klass \<Rightarrow> pyval list" where
  "slot_names c =
     concat (map (\<lambda>k. case map_of (kdict k) ''__slots__'' of
                         Some (PTuple xs) \<Rightarrow> xs
                       | _ \<Rightarrow> [])
               (getmro c))"

definition slots_setattr :: "pyval \<Rightarrow> pyval \<Rightarrow> pyval \<Rightarrow> heap \<Rightarrow> pyerr + heap" where
  "slots_setattr self name arg h =
     (case (self, heap_inst h self, name) of
        (PObj n, Some i, PStr s) \<Rightarrow>
          if name \<in> set (slot_names (icls i))
          then Inr (h\<lparr>objs := AList.update n
                       (OInst (i\<lparr>iattrs := AList.update s arg (iattrs i)\<rparr>)) (objs h)\<rparr>)
          else Inl AttributeError
      | _ \<Rightarrow> Inl TypeError)"

definition example_env :: env where
  "example_env =
     \<lparr>env_call = (\<lambda>f args kwargs h.
        if f = PObj 2
        then (case args of
                [self, site] \<Rightarrow> slots_setattr self (PStr ''site'') site h
              | _ \<Rightarrow> Inl TypeError)
        else Inr h),
      env_setattr = slots_setattr\<rparr>"

text \<open>A fresh instance of \<^verbatim>\<open>Cast\<close> at address 20, before its initializer runs.\<close>

definition instance_heap :: heap where
  "instance_heap =
     \<lparr>objs = example_objs @ [(11, OFun (cast_trampoline\<lparr>fn_cls := Some cast_class\<rparr>)),
                             (20, OInst \<lparr>icls = cast_class, iattrs = []\<rparr>)],
      next_id = 21\<rparr>"

text \<open>The instance after \<^verbatim>\<open>Code.__init__(self, 's')\<close>, after
  \<^verbatim>\<open>Cast.__init__(self, 's', 'e', 't')\<close>, and after
  \<^verbatim>\<open>Cast.__init__(self, 's', 'e', type='t', context='c')\<close>.\<close>

definition super_done_heap :: heap where
  "super_done_heap =
     \<lparr>objs = example_objs @ [(11, OFun (cast_trampoline\<lparr>fn_cls := Some cast_class\<rparr>)),
                             (20, OInst \<lparr>icls = cast_class,
                                         iattrs = [(''site'', PStr ''s'')]\<rparr>)],
      next_id = 21\<rparr>"

definition initialised_heap :: heap where
  "initialised_heap =
     \<lparr>objs = example_objs @ [(11, OFun (cast_trampoline\<lparr>fn_cls := Some cast_class\<rparr>)),
                             (20, OInst \<lparr>icls = cast_class,
                                         iattrs = [(''site'', PStr ''s''), (''expr'', PStr ''e''),
                                                   (''type'', PStr ''t'')]\<rparr>)],
      next_id = 21\<rparr>"

definition keyword_heap :: heap where
  "keyword_heap =
     \<lparr>objs = example_objs @ [(11, OFun (cast_trampoline\<lparr>fn_cls := Some cast_class\<rparr>)),
                             (20, OInst \<lparr>icls = cast_class,
                                         iattrs = [(''site'', PStr ''s''), (''expr'', PStr ''e''),
                                                   (''type'', PStr ''t''),
                                                   (''context'', PStr ''c'')]\<rparr>)],
      next_id = 21\<rparr>"

section \<open>Evaluating the example\<close>

lemma example_code:
  "SlotsMeta_new example_heap ''Code'' [object_class] code_dict
     = Inr (code_class, example_heap\<lparr>next_id := 11\<rparr>)"
  by code_simp

lemma example_decorate:
  "auto_init (example_heap\<lparr>next_id := 11\<rparr>) (PObj 3) = Inr (PObj 11, decorated_heap)"
  by code_simp

lemma example_cast:
  "SlotsMeta_new decorated_heap ''Cast'' [code_class] [(''__init__'', PObj 11)]
     = Inr (cast_class, cast_heap)"
  by code_simp

lemma example_mixin:
  "SlotsMeta_new cast_heap ''Mixin'' [code_class] [] = Inr (mixin_class, cast_heap\<lparr>next_id := 14\<rparr>)"
  by code_simp

lemma example_other:
  "SlotsMeta_new (cast_heap\<lparr>next_id := 14\<rparr>) ''Other'' [] [(''__init__'', PObj 7)]
     = Inr (other_class, cast_heap\<lparr>next_id := 15\<rparr>)"
  by code_simp

lemma example_both:
  "SlotsMeta_new (cast_heap\<lparr>next_id := 15\<rparr>) ''Both'' [cast_class, mixin_class] []
     = Inr (both_class, cast_heap\<lparr>next_id := 16\<rparr>)"
  by code_simp

lemma example_bad:
  "SlotsMeta_new (cast_heap\<lparr>next_id := 15\<rparr>) ''Bad'' [cast_class, other_class] []
     = Inl (AssertionError (ClassArg other_class))"
  by code_simp


section \<open>Lemmas about the checks\<close>

lemma ebind_Inl [simp]: "ebind (Inl e) k = Inl e"
  by (simp add: ebind_def)

lemma ebind_Inr [simp]: "ebind (Inr x) k = k x"
  by (simp add: ebind_def)

lemma ebind_eq_Inr: "ebind r k = Inr y \<longleftrightarrow> (\<exists>x. r = Inr x \<and> k x = Inr y)"
  by (cases r) simp_all

lemma check_mro_error:
  "check_mro all_inits cs = Inl e \<Longrightarrow>
   \<exists>c \<in> set cs. e = AssertionError (ClassArg c) \<and> cls_init c \<notin> set all_inits"
  by (induction cs) (auto split: if_splits)

lemma check_mro_ok:
  "check_mro all_inits cs = Inr u \<longleftrightarrow> (\<forall>c \<in> set cs. cls_init c \<in> set all_inits)"
  by (induction cs) auto

lemma check_bases_error:
  "check_bases all_inits bs = Inl e \<Longrightarrow>
   \<exists>b \<in> set bs. \<exists>c \<in> set (getmro b).
     e = AssertionError (ClassArg c) \<and> cls_init c \<notin> set all_inits"
proof (induction bs)
  case Nil
  then show ?case by simp
next
  case (Cons b bs)
  show ?case
  proof (cases "check_mro all_inits (getmro b)")
    case (Inl e')
    with Cons.prems have "e' = e" by simp
    with Inl check_mro_error[of all_inits "getmro b" e] show ?thesis by auto
  next
    case (Inr u)
    with Cons show ?thesis by auto
  qed
qed

lemma check_bases_ok:
  "check_bases all_inits bs = Inr u \<longleftrightarrow>
   (\<forall>b \<in> set bs. \<forall>c \<in> set (getmro b). cls_init c \<in> set all_inits)"
proof (induction bs)
  case Nil
  then show ?case by simp
next
  case (Cons b bs)
  show ?case
  proof (cases "check_mro all_inits (getmro b)")
    case (Inl e')
    then have "\<not> (\<forall>c \<in> set (getmro b). cls_init c \<in> set all_inits)"
      using check_mro_ok[of all_inits "getmro b" "()"] by auto
    with Inl show ?thesis by auto
  next
    case (Inr u')
    then have "\<forall>c \<in> set (getmro b). cls_init c \<in> set all_inits"
      using check_mro_ok[of all_inits "getmro b" u'] by auto
    with Inr Cons show ?thesis by auto
  qed
qed

lemma check_linear_error:
  "check_linear bases = Inl e \<Longrightarrow> \<exists>c. e = AssertionError (ClassArg c)"
  using check_bases_error[of "map cls_init (getmro (hd bases))" "tl bases" e]
  by (auto simp: check_linear_def split: if_splits)

lemma init_linear_iff:
  "init_linear bases \<longleftrightarrow>
   (\<forall>b \<in> set (tl bases). \<forall>c \<in> set (getmro b).
      cls_init c \<in> set (map cls_init (getmro (hd bases))))"
  by (simp add: init_linear_def list_all_iff)

lemma SlotsMeta_new_check_failed:
  "check_linear bases = Inl e \<Longrightarrow> SlotsMeta_new h clsname bases dct = Inl e"
  by (simp add: SlotsMeta_new_def)

lemma SlotsMeta_new_success_check:
  "SlotsMeta_new h clsname bases dct = Inr r \<Longrightarrow> check_linear bases = Inr ()"
  by (cases "check_linear bases") (simp_all add: SlotsMeta_new_def)

text \<open>
  C9. A class body that contains \<^verbatim>\<open>__slots__\<close> is always refused with an
  \<^verbatim>\<open>AssertionError\<close>, whatever the heap, the name, the bases and the rest of the body:
  the only check before line 39 is the assertion on several bases. The storage names of a
  class come from its \<^verbatim>\<open>slots\<close>: a created class whose body has no \<^verbatim>\<open>__init__\<close> has as
  \<^verbatim>\<open>__slots__\<close> the \<^verbatim>\<open>slots\<close> of the body, the empty tuple when there is none.
\<close>

theorem slots_in_body_rejected:
  "(''__slots__'' \<in> fst ` set dct \<longrightarrow>
      (\<exists>a. SlotsMeta_new h clsname bases dct = Inl (AssertionError a))) \<and>
   (\<forall>c h'. SlotsMeta_new h clsname bases dct = Inr (c, h') \<and> map_of dct ''__init__'' = None \<longrightarrow>
      map_of (kdict c) ''__slots__'' = Some (dict_get dct ''slots'' (PTuple [])))"
proof (intro conjI impI allI)
  assume body: "''__slots__'' \<in> fst ` set dct"
  show "\<exists>a. SlotsMeta_new h clsname bases dct = Inl (AssertionError a)"
  proof (cases "check_linear bases")
    case (Inl e)
    then obtain c where "e = AssertionError (ClassArg c)"
      using check_linear_error by blast
    with Inl show ?thesis by (simp add: SlotsMeta_new_def)
  next
    case (Inr u)
    with body show ?thesis by (simp add: SlotsMeta_new_def)
  qed
next
  fix c h'
  assume made: "SlotsMeta_new h clsname bases dct = Inr (c, h') \<and> map_of dct ''__init__'' = None"
  let ?dct' = "AList.update ''__slots__'' (dict_get dct ''slots'' (PTuple [])) dct"
  from made have chk: "check_linear bases = Inr ()"
    using SlotsMeta_new_success_check by blast
  with made have "type_new h clsname bases ?dct' = Inr (c, h')"
    by (auto simp: SlotsMeta_new_def Let_def split: if_splits list.splits)
  then have "kdict c = ?dct'"
    by (auto simp: type_new_def Let_def split: option.splits)
  then show "map_of (kdict c) ''__slots__'' = Some (dict_get dct ''slots'' (PTuple []))"
    by (simp add: update_conv')
qed

theorem slots_in_body_rejected_witness:
  "''__slots__'' \<in> fst ` set [(''__slots__'', PTuple [PStr ''context''])] \<and>
   SlotsMeta_new example_heap ''Code'' [object_class] [(''__slots__'', PTuple [PStr ''context''])]
     = Inl (AssertionError (Message slots_message)) \<and>
   SlotsMeta_new cast_heap ''Mixin'' [code_class] [] = Inr (mixin_class, cast_heap\<lparr>next_id := 14\<rparr>) \<and>
   map_of [] ''__init__'' = (None :: pyval option) \<and>
   map_of (kdict mixin_class) ''__slots__'' = Some (dict_get [] ''slots'' (PTuple []))"
proof -
  have body: "''__slots__'' \<in> fst ` set [(''__slots__'', PTuple [PStr ''context''])]"
    by simp
  have refused: "SlotsMeta_new example_heap ''Code'' [object_class]
          [(''__slots__'', PTuple [PStr ''context''])] = Inl (AssertionError (Message slots_message))"
    using slots_in_body_rejected
      [of "[(''__slots__'', PTuple [PStr ''context''])]" example_heap "''Code''" "[object_class]"]
      body
    by (simp add: SlotsMeta_new_def check_linear_def)
  have none: "map_of [] ''__init__'' = (None :: pyval option)"
    by simp
  from slots_in_body_rejected[of "[]" cast_heap "''Mixin''" "[code_class]"] example_mixin none
  have "map_of (kdict mixin_class) ''__slots__'' = Some (dict_get [] ''slots'' (PTuple []))"
    by blast
  with body refused example_mixin none show ?thesis by simp
qed

text \<open>
  C4. With more than one base, class creation succeeds only if the inheritance of
  \<^verbatim>\<open>__init__\<close> is linear; if it is not, the result is the \<^verbatim>\<open>AssertionError\<close> whose
  argument is a class from the resolution order of a later base whose \<^verbatim>\<open>__init__\<close> is
  not among those of the first base's order.
\<close>

theorem linear_init_required:
  assumes "length bases > 1"
  shows "(\<forall>c h'. SlotsMeta_new h clsname bases dct = Inr (c, h') \<longrightarrow> init_linear bases) \<and>
         (\<not> init_linear bases \<longrightarrow>
            (\<exists>c. SlotsMeta_new h clsname bases dct = Inl (AssertionError (ClassArg c)) \<and>
                 (\<exists>b \<in> set (tl bases). c \<in> set (getmro b)) \<and>
                 cls_init c \<notin> set (map cls_init (getmro (hd bases)))))"
proof (intro conjI allI impI)
  fix c h'
  assume "SlotsMeta_new h clsname bases dct = Inr (c, h')"
  then have "check_linear bases = Inr ()" by (rule SlotsMeta_new_success_check)
  with assms have "check_bases (map cls_init (getmro (hd bases))) (tl bases) = Inr ()"
    by (simp add: check_linear_def)
  then show "init_linear bases"
    by (simp add: check_bases_ok init_linear_iff)
next
  assume nonlinear: "\<not> init_linear bases"
  let ?all = "map cls_init (getmro (hd bases))"
  have "check_bases ?all (tl bases) \<noteq> Inr ()"
    using nonlinear by (simp add: check_bases_ok init_linear_iff)
  then obtain e where e: "check_bases ?all (tl bases) = Inl e"
    by (cases "check_bases ?all (tl bases)") auto
  from check_bases_error[OF e] obtain b c where bc:
    "b \<in> set (tl bases)" "c \<in> set (getmro b)" "e = AssertionError (ClassArg c)"
    "cls_init c \<notin> set ?all"
    by blast
  from e assms have "check_linear bases = Inl e" by (simp add: check_linear_def)
  then have "SlotsMeta_new h clsname bases dct = Inl e" by (rule SlotsMeta_new_check_failed)
  with bc show "\<exists>c. SlotsMeta_new h clsname bases dct = Inl (AssertionError (ClassArg c)) \<and>
                 (\<exists>b \<in> set (tl bases). c \<in> set (getmro b)) \<and>
                 cls_init c \<notin> set (map cls_init (getmro (hd bases)))"
    by blast
qed

theorem linear_init_required_witness:
  "length [cast_class, mixin_class] > 1 \<and>
   SlotsMeta_new (cast_heap\<lparr>next_id := 15\<rparr>) ''Both'' [cast_class, mixin_class] []
     = Inr (both_class, cast_heap\<lparr>next_id := 16\<rparr>) \<and>
   init_linear [cast_class, mixin_class] \<and>
   length [cast_class, other_class] > 1 \<and>
   \<not> init_linear [cast_class, other_class] \<and>
   SlotsMeta_new (cast_heap\<lparr>next_id := 15\<rparr>) ''Bad'' [cast_class, other_class] []
     = Inl (AssertionError (ClassArg other_class)) \<and>
   other_class \<in> set (getmro other_class) \<and>
   cls_init other_class \<notin> set (map cls_init (getmro cast_class))"
proof -
  have two: "length [cast_class, mixin_class] > 1" "length [cast_class, other_class] > 1"
    by simp_all
  have good: "init_linear [cast_class, mixin_class]"
    using linear_init_required[OF two(1), of "cast_heap\<lparr>next_id := 15\<rparr>" "''Both''" "[]"]
      example_both
    by blast
  have nonlinear: "\<not> init_linear [cast_class, other_class]"
    by code_simp
  from linear_init_required[OF two(2), of "cast_heap\<lparr>next_id := 15\<rparr>" "''Bad''" "[]"]
    nonlinear
  obtain c where c:
    "SlotsMeta_new (cast_heap\<lparr>next_id := 15\<rparr>) ''Bad'' [cast_class, other_class] []
       = Inl (AssertionError (ClassArg c))"
    "\<exists>b \<in> set (tl [cast_class, other_class]). c \<in> set (getmro b)"
    "cls_init c \<notin> set (map cls_init (getmro (hd [cast_class, other_class])))"
    by blast
  from c(1) example_bad have "c = other_class" by simp
  with c have "other_class \<in> set (getmro other_class)"
    "cls_init other_class \<notin> set (map cls_init (getmro cast_class))"
    by (simp_all add: getmro_def)
  with two good nonlinear example_both example_bad show ?thesis by simp
qed

section \<open>Lemmas about class creation\<close>

lemma type_new_result:
  assumes "type_new h clsname bases dct = Inr (c, h')"
  shows "kdict c = dct \<and> kmeta c \<and> kname c = clsname \<and> kid c = next_id h \<and>
         h' = h\<lparr>next_id := Suc (next_id h)\<rparr>"
  using assms by (auto simp: type_new_def Let_def split: option.splits)

lemma heap_fun_next_id [simp]: "heap_fun (h\<lparr>next_id := n\<rparr>) v = heap_fun h v"
  by (cases v) (simp_all add: heap_fun_def)

lemma dict_get_update_other:
  "k \<noteq> k' \<Longrightarrow> dict_get (AList.update k v dct) k' d = dict_get dct k' d"
  by (simp add: dict_get_def update_conv')

lemma patch_dict_result:
  assumes "patch_dict dct ia pa = Inr dct'"
  shows "\<exists>n xs ss. py_len pa = Inr n \<and> py_slice_to ia n = Inr pa \<and>
           ebind (py_slice_from ia n) py_iter = Inr xs \<and>
           dict_get dct ''slots'' (PTuple []) = PTuple ss \<and>
           dct' = AList.update ''__slots__'' (PTuple (xs @ ss))
                    (AList.update ''init_args'' ia dct)"
proof -
  from assms obtain n where n: "py_len pa = Inr n"
    by (cases "py_len pa") (simp_all add: patch_dict_def Let_def)
  from assms n obtain pre where pre: "py_slice_to ia n = Inr pre"
    by (cases "py_slice_to ia n") (simp_all add: patch_dict_def Let_def)
  from assms n pre have same: "pre = pa"
    by (simp add: patch_dict_def Let_def split: if_splits)
  from assms n pre same obtain rest where rest: "py_slice_from ia n = Inr rest"
    by (cases "py_slice_from ia n") (simp_all add: patch_dict_def Let_def)
  from assms n pre same rest obtain xs where xs: "py_iter rest = Inr xs"
    by (cases "py_iter rest") (simp_all add: patch_dict_def Let_def py_tuple_def)
  let ?s = "dict_get dct ''slots'' (PTuple [])"
  have slots: "dict_get (AList.update ''init_args'' ia dct) ''slots'' (PTuple []) = ?s"
    by (rule dict_get_update_other) simp
  from assms n pre same rest xs slots
  have add: "tuple_add xs ?s = Inr (PTuple (xs @ (case ?s of PTuple ss \<Rightarrow> ss | _ \<Rightarrow> []))) \<and>
             (\<exists>ss. ?s = PTuple ss)"
    by (cases ?s) (simp_all add: patch_dict_def Let_def py_tuple_def py_add_def)
  then obtain ss where ss: "?s = PTuple ss" by blast
  from assms n pre same rest xs slots ss
  have "dct' = AList.update ''__slots__'' (PTuple (xs @ ss)) (AList.update ''init_args'' ia dct)"
    by (simp add: patch_dict_def Let_def py_tuple_def py_add_def)
  with n pre same rest xs ss show ?thesis by simp
qed

lemma patch_dict_lookup:
  assumes "patch_dict dct ia pa = Inr dct'"
  shows "map_of dct' ''init_args'' = Some ia"
    and "\<exists>v. map_of dct' ''__slots__'' = Some v"
    and "k \<noteq> ''init_args'' \<Longrightarrow> k \<noteq> ''__slots__'' \<Longrightarrow> map_of dct' k = map_of dct k"
  using patch_dict_result[OF assms] by (auto simp: update_conv')

lemma patch_dict_lists:
  assumes "patch_dict dct (PList xs) (PList ps) = Inr dct'"
  shows "take (length ps) xs = ps \<and>
         (\<exists>ss. dict_get dct ''slots'' (PTuple []) = PTuple ss \<and>
               map_of dct' ''__slots__'' = Some (PTuple (drop (length ps) xs @ ss)))"
  using patch_dict_result[OF assms] by (auto simp: update_conv')

lemma patch_dict_not_prefix:
  assumes "take (length ps) xs \<noteq> ps"
  shows "patch_dict dct (PList xs) (PList ps) = Inl (AssertionError NoMessage)"
  using assms by (simp add: patch_dict_def Let_def)

lemma take_length_prefix: "take (length ps) xs = ps \<longleftrightarrow> prefix ps xs"
  by (metis append_eq_conv_conj prefix_def)

text \<open>What a successful creation of a class with an \<^verbatim>\<open>__init__\<close> went through.\<close>

lemma SlotsMeta_new_init_success:
  assumes ok: "SlotsMeta_new h clsname bases dct = Inr (c, h')"
    and init: "map_of dct ''__init__'' = Some init"
  shows "\<exists>ia pa. init_arg_names h init = Some ia \<and> parent_init_args_of bases = Inr pa \<and>
           patch_dict dct ia pa = Inr (kdict c) \<and>
           (if truthy (getattr_auto_init_args h init)
            then first_is_slotsmeta bases \<and>
                 h' = set_cls (h\<lparr>next_id := Suc (next_id h)\<rparr>) init c
            else h' = h\<lparr>next_id := Suc (next_id h)\<rparr> \<and>
                 (\<exists>spec. heap_fun h init = Some spec \<and> \<not> variadic spec \<and>
                    \<not> keyword_only spec \<and> \<not> annotated spec))"
proof -
  from ok have chk: "check_linear bases = Inr ()" by (rule SlotsMeta_new_success_check)
  from ok chk have noslots: "''__slots__'' \<notin> fst ` set dct"
    by (auto simp: SlotsMeta_new_def split: if_splits)
  from ok chk noslots init obtain pa where pa: "parent_init_args_of bases = Inr pa"
    by (cases "parent_init_args_of bases") (simp_all add: SlotsMeta_new_def)
  show ?thesis
  proof (cases "truthy (getattr_auto_init_args h init)")
    case True
    let ?ia = "getattr_auto_init_args h init"
    from ok chk noslots init pa True have first: "first_is_slotsmeta bases"
      by (simp add: SlotsMeta_new_def split: if_splits)
    from ok chk noslots init pa True first obtain dct' where
      dct': "patch_dict dct ?ia pa = Inr dct'"
      by (cases "patch_dict dct ?ia pa") (simp_all add: SlotsMeta_new_def)
    from ok chk noslots init pa True first dct' obtain c0 h0 where
      new: "type_new h clsname bases dct' = Inr (c0, h0)"
      by (cases "type_new h clsname bases dct'") (auto simp: SlotsMeta_new_def)
    from ok chk noslots init pa True first dct' new
    have res: "c = c0" "h' = set_cls h0 init c0"
      by (auto simp: SlotsMeta_new_def)
    from type_new_result[OF new] res dct' True pa first show ?thesis
      by (simp add: init_arg_names_def)
  next
    case False
    from ok chk noslots init pa False obtain spec where
      spec: "getfullargspec h init = Inr spec"
      by (cases "getfullargspec h init") (simp_all add: SlotsMeta_new_def)
    then have hf: "heap_fun h init = Some spec"
      by (simp add: getfullargspec_def split: option.splits)
    from ok chk noslots init pa False spec
    have sig: "\<not> variadic spec" "\<not> keyword_only spec" "\<not> annotated spec"
      by (auto simp: SlotsMeta_new_def variadic_def keyword_only_def annotated_def
          split: if_splits)
    let ?ia = "PList (map PStr (f_args spec))"
    from sig have sig':
      "f_varargs spec = None" "f_varkw spec = None" "f_kwonlydefaults spec = None"
      "f_kwonlyargs spec = []" "f_annotations spec = []"
      by (simp_all add: variadic_def keyword_only_def annotated_def)
    from ok chk noslots init pa False spec sig' obtain dct' where
      dct': "patch_dict dct ?ia pa = Inr dct'"
      by (cases "patch_dict dct ?ia pa") (simp_all add: SlotsMeta_new_def)
    from ok chk noslots init pa False spec sig' dct'
    have new: "type_new h clsname bases dct' = Inr (c, h')"
      by (simp add: SlotsMeta_new_def)
    from type_new_result[OF new] dct' False pa hf sig show ?thesis
      by (simp add: init_arg_names_def)
  qed
qed

lemma auto_init_result:
  assumes "auto_init h fun = Inr (t, h')"
  shows "\<exists>f tf. heap_fun h fun = Some f \<and> \<not> variadic f \<and> \<not> keyword_only f \<and>
           \<not> annotated f \<and> \<not> has_defaults f \<and> t = PObj (next_id h) \<and>
           heap_fun h' t = Some tf \<and>
           auto_init_args tf = Some (PList (map PStr (f_args f))) \<and>
           fn_code tf = Trampoline fun \<and> f_varargs tf = Some ''args'' \<and>
           f_varkw tf = Some ''kwargs'' \<and> fn_cls tf = fn_cls f \<and>
           h' = h\<lparr>objs := AList.update (next_id h) (OFun tf) (objs h),
                  next_id := Suc (next_id h)\<rparr>"
proof -
  from assms obtain f where spec: "getfullargspec h fun = Inr f"
    by (cases "getfullargspec h fun") (simp_all add: auto_init_def)
  then have hf: "heap_fun h fun = Some f"
    by (simp add: getfullargspec_def split: option.splits)
  from assms spec have sig:
    "\<not> variadic f" "\<not> keyword_only f" "\<not> annotated f" "\<not> has_defaults f"
    by (auto simp: auto_init_def variadic_def keyword_only_def annotated_def has_defaults_def
        split: if_splits)
  let ?tf = "\<lparr>f_args = [], f_varargs = Some ''args'', f_varkw = Some ''kwargs'',
              f_defaults = None, f_kwonlyargs = [], f_kwonlydefaults = None,
              f_annotations = f_annotations f,
              auto_init_args = Some (PList (map PStr (f_args f))),
              fn_cls = fn_cls f, fn_code = Trampoline fun\<rparr>"
  from sig have sig':
    "f_varargs f = None" "f_varkw f = None" "f_kwonlydefaults f = None"
    "f_kwonlyargs f = []" "f_annotations f = []"
    "\<not> (case f_defaults f of None \<Rightarrow> False | Some ds \<Rightarrow> ds \<noteq> [])"
    by (simp_all add: variadic_def keyword_only_def annotated_def has_defaults_def)
  from assms spec sig' have res: "t = PObj (next_id h)"
    "h' = h\<lparr>objs := AList.update (next_id h) (OFun ?tf) (objs h),
             next_id := Suc (next_id h)\<rparr>"
    by (simp_all add: auto_init_def Let_def)
  then have "heap_fun h' t = Some ?tf"
    by (simp add: heap_fun_def update_conv')
  with hf sig res show ?thesis
    by (intro exI[of _ f] exI[of _ ?tf]) simp
qed



text \<open>
  C6. A created class whose body has an \<^verbatim>\<open>__init__\<close> has the attribute \<^verbatim>\<open>init_args\<close>,
  the list of all positional argument names of that \<^verbatim>\<open>__init__\<close>: of the function itself
  when it is a plain function (one without \<^verbatim>\<open>auto_init_args\<close>), of the function that
  \<^verbatim>\<open>auto_init\<close> wrapped when it is the trampoline that \<^verbatim>\<open>auto_init\<close> returned and the
  class is created while the trampoline is as \<^verbatim>\<open>auto_init\<close> left it.
\<close>

theorem init_args_attribute:
  assumes "SlotsMeta_new h clsname bases dct = Inr (c, h')"
    and "map_of dct ''__init__'' = Some init"
  shows "(\<forall>f. heap_fun h init = Some f \<and> auto_init_args f = None \<longrightarrow>
            map_of (kdict c) ''init_args'' = Some (PList (map PStr (f_args f)))) \<and>
         (\<forall>h0 h1 fun f.
            auto_init h0 fun = Inr (init, h1) \<and> heap_fun h0 fun = Some f \<and>
            heap_fun h init = heap_fun h1 init \<longrightarrow>
            map_of (kdict c) ''init_args'' = Some (PList (map PStr (f_args f))))"
proof (intro conjI allI impI)
  from SlotsMeta_new_init_success[OF assms] obtain ia pa where
    ia: "init_arg_names h init = Some ia" and
    patched: "patch_dict dct ia pa = Inr (kdict c)" and
    branch: "\<not> truthy (getattr_auto_init_args h init) \<longrightarrow>
               (\<exists>spec. heap_fun h init = Some spec \<and> \<not> variadic spec)"
    by (auto split: if_splits)
  from patch_dict_lookup(1)[OF patched] have attr: "map_of (kdict c) ''init_args'' = Some ia" .
  {
    fix f
    assume "heap_fun h init = Some f \<and> auto_init_args f = None"
    with ia have "ia = PList (map PStr (f_args f))"
      by (simp add: init_arg_names_def getattr_auto_init_args_def)
    with attr show "map_of (kdict c) ''init_args'' = Some (PList (map PStr (f_args f)))"
      by simp
  }
  {
    fix h0 h1 "fun" f
    assume "auto_init h0 fun = Inr (init, h1) \<and> heap_fun h0 fun = Some f \<and>
            heap_fun h init = heap_fun h1 init"
    with auto_init_result[of h0 "fun" init h1] obtain tf where
      tf: "heap_fun h init = Some tf"
        "auto_init_args tf = Some (PList (map PStr (f_args f)))"
        "f_varargs tf = Some ''args''"
      by auto
    then have get: "getattr_auto_init_args h init = PList (map PStr (f_args f))"
      by (simp add: getattr_auto_init_args_def)
    have "truthy (getattr_auto_init_args h init)"
    proof (rule ccontr)
      assume "\<not> truthy (getattr_auto_init_args h init)"
      with branch tf show False by (auto simp: variadic_def)
    qed
    with ia get have "ia = PList (map PStr (f_args f))"
      by (simp add: init_arg_names_def)
    with attr show "map_of (kdict c) ''init_args'' = Some (PList (map PStr (f_args f)))"
      by simp
  }
qed

theorem init_args_attribute_witness:
  "SlotsMeta_new example_heap ''Code'' [object_class] code_dict
     = Inr (code_class, example_heap\<lparr>next_id := 11\<rparr>) \<and>
   map_of code_dict ''__init__'' = Some (PObj 2) \<and>
   heap_fun example_heap (PObj 2) = Some (plain_function [''self'', ''site'']) \<and>
   auto_init_args (plain_function [''self'', ''site'']) = None \<and>
   map_of (kdict code_class) ''init_args'' = Some (PList [PStr ''self'', PStr ''site'']) \<and>
   auto_init (example_heap\<lparr>next_id := 11\<rparr>) (PObj 3) = Inr (PObj 11, decorated_heap) \<and>
   heap_fun (example_heap\<lparr>next_id := 11\<rparr>) (PObj 3)
     = Some (plain_function [''self'', ''site'', ''expr'', ''type'']) \<and>
   SlotsMeta_new decorated_heap ''Cast'' [code_class] [(''__init__'', PObj 11)]
     = Inr (cast_class, cast_heap) \<and>
   map_of (kdict cast_class) ''init_args''
     = Some (PList [PStr ''self'', PStr ''site'', PStr ''expr'', PStr ''type''])"
proof -
  have init: "map_of code_dict ''__init__'' = Some (PObj 2)"
    by (simp add: code_dict_def)
  have f2: "heap_fun example_heap (PObj 2) = Some (plain_function [''self'', ''site''])"
    by code_simp
  have plain: "auto_init_args (plain_function [''self'', ''site'']) = None"
    by (simp add: plain_function_def)
  have f3: "heap_fun (example_heap\<lparr>next_id := 11\<rparr>) (PObj 3)
              = Some (plain_function [''self'', ''site'', ''expr'', ''type''])"
    by code_simp
  have init': "map_of [(''__init__'', PObj 11)] ''__init__'' = Some (PObj 11)"
    by simp
  from init_args_attribute[OF example_code init] f2 plain
  have one: "map_of (kdict code_class) ''init_args''
               = Some (PList (map PStr (f_args (plain_function [''self'', ''site'']))))"
    by blast
  have same: "heap_fun decorated_heap (PObj 11) = heap_fun decorated_heap (PObj 11)"
    by simp
  from init_args_attribute[OF example_cast init'] example_decorate f3 same
  have two: "map_of (kdict cast_class) ''init_args''
               = Some (PList (map PStr
                   (f_args (plain_function [''self'', ''site'', ''expr'', ''type'']))))"
    by blast
  from one two example_code init f2 plain example_decorate f3 example_cast
  show ?thesis by (simp add: plain_function_def)
qed

text \<open>
  C8. When the body has an \<^verbatim>\<open>__init__\<close> with argument names \<open>xs\<close> and the parent's
  argument names are \<open>ps\<close> (\<^verbatim>\<open>['self']\<close> when the first base is not a \<^verbatim>\<open>SlotsMeta\<close>
  class), a created class has \<open>ps\<close> as a prefix of its \<^verbatim>\<open>init_args\<close>, and an
  \<^verbatim>\<open>__init__\<close> whose names do not start with \<open>ps\<close> is refused with an
  \<^verbatim>\<open>AssertionError\<close>.
\<close>

theorem parent_args_prefix:
  assumes init: "map_of dct ''__init__'' = Some init"
    and names: "init_arg_names h init = Some (PList xs)"
    and parent: "parent_init_args_of bases = Inr (PList ps)"
  shows "(\<forall>c h'. SlotsMeta_new h clsname bases dct = Inr (c, h') \<longrightarrow>
            prefix ps xs \<and> map_of (kdict c) ''init_args'' = Some (PList xs)) \<and>
         (\<not> prefix ps xs \<longrightarrow> (\<exists>a. SlotsMeta_new h clsname bases dct = Inl (AssertionError a))) \<and>
         (\<not> first_is_slotsmeta bases \<longrightarrow> ps = [PStr ''self''])"
proof (intro conjI allI impI)
  fix c h'
  assume ok: "SlotsMeta_new h clsname bases dct = Inr (c, h')"
  from SlotsMeta_new_init_success[OF ok init] names parent
  have patched: "patch_dict dct (PList xs) (PList ps) = Inr (kdict c)"
    by auto
  from patch_dict_lists[OF patched] show "prefix ps xs"
    by (simp add: take_length_prefix)
  from patch_dict_lookup(1)[OF patched]
  show "map_of (kdict c) ''init_args'' = Some (PList xs)" .
next
  assume "\<not> prefix ps xs"
  then have bad: "patch_dict dct (PList xs) (PList ps) = Inl (AssertionError NoMessage)"
    by (simp add: patch_dict_not_prefix take_length_prefix)
  show "\<exists>a. SlotsMeta_new h clsname bases dct = Inl (AssertionError a)"
  proof (cases "check_linear bases")
    case (Inl e)
    with check_linear_error[OF Inl] show ?thesis
      by (auto simp: SlotsMeta_new_def)
  next
    case (Inr u)
    show ?thesis
    proof (cases "truthy (getattr_auto_init_args h init)")
      case True
      with names have "getattr_auto_init_args h init = PList xs"
        by (simp add: init_arg_names_def)
      with Inr init parent True bad show ?thesis
        by (simp add: SlotsMeta_new_def)
    next
      case False
      with names obtain f where f: "heap_fun h init = Some f" "xs = map PStr (f_args f)"
        by (auto simp: init_arg_names_def)
      then have "getfullargspec h init = Inr f"
        by (simp add: getfullargspec_def)
      with Inr init parent False bad f(2) show ?thesis
        by (simp add: SlotsMeta_new_def)
    qed
  qed
next
  assume "\<not> first_is_slotsmeta bases"
  with parent show "ps = [PStr ''self'']"
    by (simp add: parent_init_args_of_def)
qed

theorem parent_args_prefix_witness:
  "map_of [(''__init__'', PObj 11)] ''__init__'' = Some (PObj 11) \<and>
   init_arg_names decorated_heap (PObj 11)
     = Some (PList [PStr ''self'', PStr ''site'', PStr ''expr'', PStr ''type'']) \<and>
   parent_init_args_of [code_class] = Inr (PList [PStr ''self'', PStr ''site'']) \<and>
   SlotsMeta_new decorated_heap ''Cast'' [code_class] [(''__init__'', PObj 11)]
     = Inr (cast_class, cast_heap) \<and>
   prefix [PStr ''self'', PStr ''site'']
     [PStr ''self'', PStr ''site'', PStr ''expr'', PStr ''type''] \<and>
   map_of [(''__init__'', PObj 6)] ''__init__'' = Some (PObj 6) \<and>
   init_arg_names cast_heap (PObj 6) = Some (PList [PStr ''self'', PStr ''expr'']) \<and>
   \<not> prefix [PStr ''self'', PStr ''site''] [PStr ''self'', PStr ''expr''] \<and>
   SlotsMeta_new cast_heap ''Unary'' [code_class] [(''__init__'', PObj 6)]
     = Inl (AssertionError NoMessage) \<and>
   parent_init_args_of [object_class] = Inr (PList [PStr ''self'']) \<and>
   \<not> first_is_slotsmeta [object_class]"
proof -
  have i11: "map_of [(''__init__'', PObj 11)] ''__init__'' = Some (PObj 11)"
    and i6: "map_of [(''__init__'', PObj 6)] ''__init__'' = Some (PObj 6)"
    by simp_all
  have n11: "init_arg_names decorated_heap (PObj 11)
               = Some (PList [PStr ''self'', PStr ''site'', PStr ''expr'', PStr ''type''])"
    by code_simp
  have n6: "init_arg_names cast_heap (PObj 6) = Some (PList [PStr ''self'', PStr ''expr''])"
    by code_simp
  have parent: "parent_init_args_of [code_class] = Inr (PList [PStr ''self'', PStr ''site''])"
    by code_simp
  have root: "parent_init_args_of [object_class] = Inr (PList [PStr ''self''])"
    "\<not> first_is_slotsmeta [object_class]"
    by code_simp+
  from parent_args_prefix[OF i11 n11 parent, of "''Cast''"] example_cast
  have good: "prefix [PStr ''self'', PStr ''site'']
                [PStr ''self'', PStr ''site'', PStr ''expr'', PStr ''type'']"
    by blast
  have renamed: "\<not> prefix [PStr ''self'', PStr ''site''] [PStr ''self'', PStr ''expr'']"
    by simp
  from parent_args_prefix[OF i6 n6 parent, of "''Unary''"] renamed
  obtain a where "SlotsMeta_new cast_heap ''Unary'' [code_class] [(''__init__'', PObj 6)]
                    = Inl (AssertionError a)"
    by blast
  moreover have "SlotsMeta_new cast_heap ''Unary'' [code_class] [(''__init__'', PObj 6)]
                   = Inl (AssertionError NoMessage)"
    by code_simp
  ultimately show ?thesis
    using i11 i6 n11 n6 parent root good renamed example_cast by simp
qed

lemma set_cls_heap_fun:
  assumes "heap_fun h v = Some f"
  shows "heap_fun (set_cls h v k) v = Some (f\<lparr>fn_cls := Some k\<rparr>)"
proof -
  from assms obtain n where v: "v = PObj n"
    by (cases v) (simp_all add: heap_fun_def)
  with assms have "map_of (objs h) n = Some (OFun f)"
    by (auto simp: heap_fun_def split: option.splits obj.splits)
  with v show ?thesis
    by (simp add: set_cls_def heap_fun_def update_conv')
qed


lemma SlotsMeta_new_trampoline:
  assumes ok: "SlotsMeta_new h clsname bases dct = Inr (c, h')"
    and init: "map_of dct ''__init__'' = Some init"
    and tf: "heap_fun h init = Some tf" "f_varargs tf \<noteq> None"
  shows "heap_fun h' init = Some (tf\<lparr>fn_cls := Some c\<rparr>)"
proof -
  from SlotsMeta_new_init_success[OF ok init] tf
  have "h' = set_cls (h\<lparr>next_id := Suc (next_id h)\<rparr>) init c"
    by (auto simp: variadic_def split: if_splits)
  with tf(1) show ?thesis by (simp add: set_cls_heap_fun)
qed

text \<open>
  C5. The function object that \<^verbatim>\<open>auto_init\<close> returns has the attribute
  \<^verbatim>\<open>auto_init_args\<close>, the list of the positional argument names of the decorated
  function. When a class is then created through \<^verbatim>\<open>SlotsMeta\<close> from a body whose
  \<^verbatim>\<open>__init__\<close> is that object (in the heap \<^verbatim>\<open>auto_init\<close> left, or in a later one where the
  object is as \<^verbatim>\<open>auto_init\<close> left it), the object's attribute \<^verbatim>\<open>cls\<close> is the new class.
\<close>

theorem auto_init_attributes:
  assumes "auto_init h fun = Inr (t, h1)"
  shows "(\<exists>f tf. heap_fun h fun = Some f \<and> heap_fun h1 t = Some tf \<and>
            auto_init_args tf = Some (PList (map PStr (f_args f)))) \<and>
         (\<forall>hx clsname bases dct c h2.
            heap_fun hx t = heap_fun h1 t \<and> map_of dct ''__init__'' = Some t \<and>
            SlotsMeta_new hx clsname bases dct = Inr (c, h2) \<longrightarrow>
            (\<exists>tf'. heap_fun h2 t = Some tf' \<and> fn_cls tf' = Some c))"
proof -
  from auto_init_result[OF assms] obtain f tf where
    f: "heap_fun h fun = Some f" and
    tf: "heap_fun h1 t = Some tf" "auto_init_args tf = Some (PList (map PStr (f_args f)))"
      "f_varargs tf = Some ''args''"
    by blast
  have "\<exists>tf'. heap_fun h2 t = Some tf' \<and> fn_cls tf' = Some c"
    if later: "heap_fun hx t = heap_fun h1 t \<and> map_of dct ''__init__'' = Some t \<and>
               SlotsMeta_new hx clsname bases dct = Inr (c, h2)"
    for hx clsname bases dct c h2
  proof -
    from later tf have "heap_fun hx t = Some tf" "f_varargs tf \<noteq> None" by simp_all
    with later have "heap_fun h2 t = Some (tf\<lparr>fn_cls := Some c\<rparr>)"
      using SlotsMeta_new_trampoline[of hx clsname bases dct c h2 t tf] by simp
    then show ?thesis by simp
  qed
  with f tf show ?thesis by blast
qed

theorem auto_init_attributes_witness:
  "auto_init (example_heap\<lparr>next_id := 11\<rparr>) (PObj 3) = Inr (PObj 11, decorated_heap) \<and>
   heap_fun decorated_heap (PObj 11) = Some cast_trampoline \<and>
   auto_init_args cast_trampoline
     = Some (PList [PStr ''self'', PStr ''site'', PStr ''expr'', PStr ''type'']) \<and>
   map_of [(''__init__'', PObj 11)] ''__init__'' = Some (PObj 11) \<and>
   SlotsMeta_new decorated_heap ''Cast'' [code_class] [(''__init__'', PObj 11)]
     = Inr (cast_class, cast_heap) \<and>
   heap_fun cast_heap (PObj 11) = Some (cast_trampoline\<lparr>fn_cls := Some cast_class\<rparr>) \<and>
   fn_cls (cast_trampoline\<lparr>fn_cls := Some cast_class\<rparr>) = Some cast_class"
proof -
  have tramp: "heap_fun decorated_heap (PObj 11) = Some cast_trampoline"
    by code_simp
  have args: "auto_init_args cast_trampoline
                = Some (PList [PStr ''self'', PStr ''site'', PStr ''expr'', PStr ''type''])"
    by (simp add: cast_trampoline_def)
  have init: "map_of [(''__init__'', PObj 11)] ''__init__'' = Some (PObj 11)"
    by simp
  have after: "heap_fun cast_heap (PObj 11) = Some (cast_trampoline\<lparr>fn_cls := Some cast_class\<rparr>)"
    by code_simp
  from auto_init_attributes[OF example_decorate] init example_cast
  have "\<exists>tf'. heap_fun cast_heap (PObj 11) = Some tf' \<and> fn_cls tf' = Some cast_class"
    by blast
  with after have "fn_cls (cast_trampoline\<lparr>fn_cls := Some cast_class\<rparr>) = Some cast_class"
    by simp
  with example_decorate tramp args init example_cast after show ?thesis by simp
qed




section \<open>Lemmas about the trampoline\<close>

lemma tbind_Inl [simp]: "tbind (tr, Inl e) k = (tr, Inl e)"
  by (simp add: tbind_def)

lemma tbind_Inr: "tbind (tr, Inr x) k = (tr @ fst (k x), snd (k x))"
  by (simp add: tbind_def split: prod.splits)

lemma tbind_tlift_Inr [simp]: "tbind (tlift (Inr x)) k = k x"
  by (simp add: tbind_def tlift_def split: prod.splits)

lemma tbind_tlift_Inl [simp]: "tbind (tlift (Inl e)) k = ([], Inl e)"
  by (simp add: tbind_def tlift_def)

text \<open>The loop assigns the pairs in order and stops at the first that raises.\<close>

lemma setattr_loop_trace:
  "setattr_loop env self pairs h = (tr, r) \<Longrightarrow>
   prefix tr (assignments self pairs) \<and> (\<not> isl r \<longrightarrow> tr = assignments self pairs)"
proof (induction pairs arbitrary: h tr r)
  case Nil
  then show ?case by (auto simp: assignments_def)
next
  case (Cons p pairs)
  obtain name arg where p: "p = (name, arg)" by (cases p)
  show ?case
  proof (cases "env_setattr env self name arg h")
    case (Inl e)
    with Cons.prems p have "tr = [Setattr self name arg]" "r = Inl e"
      by (simp_all add: do_setattr_def)
    with p show ?thesis by (simp add: assignments_def)
  next
    case (Inr h1)
    obtain tr1 r1 where loop: "setattr_loop env self pairs h1 = (tr1, r1)"
      by (cases "setattr_loop env self pairs h1")
    with Cons.prems p Inr have "tr = Setattr self name arg # tr1" "r = r1"
      by (simp_all add: do_setattr_def tbind_Inr)
    with Cons.IH[OF loop] p show ?thesis by (simp add: assignments_def)
  qed
qed

lemma trampoline_prologue_eq:
  assumes "heap_fun h init = Some f" "fn_cls f = Some cls" "args = self # others"
    "py_super h cls self = Inr sup_obj" "super_getattr sup_obj ''init_args'' = Inr parent_args"
    "py_len parent_args = Inr n"
  shows "trampoline_prologue h init args = Inr (self, sup_obj, n)"
  using assms by (simp add: trampoline_prologue_def)

text \<open>
  What lines 77 to 88 do once the prologue has passed: the call of the superclass
  initializer comes first; unless that call or the lookup of \<^verbatim>\<open>self.init_args\<close> raised,
  the assignments of the positional arguments follow and then those of the keyword
  arguments, all of them when nothing raised.
\<close>

lemma trampoline_assign_trace:
  assumes pro: "trampoline_prologue h init args = Inr (self, sup_obj, n)"
    and run: "trampoline_assign env init args kwargs h = (tr, r)"
  shows "\<exists>rest. tr = Call (super_init sup_obj) (self # drop 1 (take n args)) [] # rest \<and>
           ((rest = [] \<and> isl r) \<or>
            (\<exists>h1 names.
               env_call env (super_init sup_obj) (self # drop 1 (take n args)) [] h = Inr h1 \<and>
               later_names h1 self n = Inr names \<and>
               prefix rest (assignments self (zip names (drop n args)) @
                            assignments self (keyword_pairs kwargs)) \<and>
               (\<not> isl r \<longrightarrow> rest = assignments self (zip names (drop n args)) @
                                     assignments self (keyword_pairs kwargs))))"
proof (cases "env_call env (super_init sup_obj) (self # drop 1 (take n args)) [] h")
  case (Inl e)
  with pro run
  have "tr = [Call (super_init sup_obj) (self # drop 1 (take n args)) []]" "r = Inl e"
    by (simp_all add: trampoline_assign_def do_call_def)
  then show ?thesis by simp
next
  case (Inr h1)
  note call = Inr
  show ?thesis
  proof (cases "later_names h1 self n")
    case (Inl e)
    with pro run call
    have "tr = [Call (super_init sup_obj) (self # drop 1 (take n args)) []]" "r = Inl e"
      by (simp_all add: trampoline_assign_def do_call_def tbind_Inr)
    then show ?thesis by simp
  next
    case (Inr names)
    obtain tr1 r1 where loop1:
      "setattr_loop env self (zip names (drop n args)) h1 = (tr1, r1)"
      by (cases "setattr_loop env self (zip names (drop n args)) h1")
    note t1 = setattr_loop_trace[OF loop1]
    show ?thesis
    proof (cases r1)
      case (Inl e)
      with pro run call Inr loop1
      have "tr = Call (super_init sup_obj) (self # drop 1 (take n args)) [] # tr1" "r = Inl e"
        by (simp_all add: trampoline_assign_def do_call_def tbind_Inr)
      with t1 call Inr show ?thesis by auto
    next
      case h2: (Inr h2)
      obtain tr2 r2 where loop2:
        "setattr_loop env self (keyword_pairs kwargs) h2 = (tr2, r2)"
        by (cases "setattr_loop env self (keyword_pairs kwargs) h2")
      note t2 = setattr_loop_trace[OF loop2]
      from pro run call Inr loop1 h2 loop2
      have "tr = Call (super_init sup_obj) (self # drop 1 (take n args)) [] # tr1 @ tr2" "r = r2"
        by (simp_all add: trampoline_assign_def do_call_def tbind_Inr)
      moreover from t1 h2 have "tr1 = assignments self (zip names (drop n args))" by simp
      ultimately show ?thesis using t2 call Inr by auto
    qed
  qed
qed

lemma trampoline_call_after_assign:
  "trampoline_assign env init args kwargs h = (tr, Inr h3) \<Longrightarrow>
   trampoline_call env init fun args kwargs h
     = (tr @ [Call fun args kwargs], env_call env fun args kwargs h3)"
  by (simp add: trampoline_call_def do_call_def tbind_Inr)

lemma trampoline_call_assign_failed:
  "trampoline_assign env init args kwargs h = (tr, Inl e) \<Longrightarrow>
   trampoline_call env init fun args kwargs h = (tr, Inl e)"
  by (simp add: trampoline_call_def)

lemma keyword_assignments:
  "assignments self (keyword_pairs kwargs)
     = map (\<lambda>(name, arg). Setattr self (PStr name) arg) kwargs"
  by (induction kwargs) (auto simp: assignments_def keyword_pairs_def)

section \<open>Evaluating the trampoline in the example\<close>

lemma example_prologue:
  "heap_fun instance_heap (PObj 11) = Some (cast_trampoline\<lparr>fn_cls := Some cast_class\<rparr>)"
  "fn_cls (cast_trampoline\<lparr>fn_cls := Some cast_class\<rparr>) = Some cast_class"
  "py_super instance_heap cast_class (PObj 20) = Inr [code_class, object_class]"
  "super_getattr [code_class, object_class] ''init_args''
     = Inr (PList [PStr ''self'', PStr ''site''])"
  "py_len (PList [PStr ''self'', PStr ''site'']) = Inr 2"
  "super_init [code_class, object_class] = PObj 2"
  by code_simp+

lemma example_super_call:
  "env_call example_env (PObj 2) [PObj 20, PStr ''s''] [] instance_heap = Inr super_done_heap"
  "later_names super_done_heap (PObj 20) 2 = Inr [PStr ''expr'', PStr ''type'']"
  by code_simp+

lemma example_run:
  "trampoline_call example_env (PObj 11) (PObj 3)
     [PObj 20, PStr ''s'', PStr ''e'', PStr ''t''] [] instance_heap
   = ([Call (PObj 2) [PObj 20, PStr ''s''] [],
       Setattr (PObj 20) (PStr ''expr'') (PStr ''e''),
       Setattr (PObj 20) (PStr ''type'') (PStr ''t''),
       Call (PObj 3) [PObj 20, PStr ''s'', PStr ''e'', PStr ''t''] []],
      Inr initialised_heap)"
  by code_simp

lemma example_keyword_assign:
  "trampoline_assign example_env (PObj 11) [PObj 20, PStr ''s'', PStr ''e'']
     [(''type'', PStr ''t''), (''context'', PStr ''c'')] instance_heap
   = ([Call (PObj 2) [PObj 20, PStr ''s''] [],
       Setattr (PObj 20) (PStr ''expr'') (PStr ''e''),
       Setattr (PObj 20) (PStr ''type'') (PStr ''t''),
       Setattr (PObj 20) (PStr ''context'') (PStr ''c'')],
      Inr keyword_heap)"
  by code_simp

text \<open>
  C2. Once the prologue of the trampoline has passed (the function object has its
  \<^verbatim>\<open>cls\<close>, \<open>self\<close> is the first argument and an instance of it, and the \<^verbatim>\<open>init_args\<close> of
  the superclass has length \<open>n\<close>), every run starts with the call of the superclass
  \<^verbatim>\<open>__init__\<close> on \<open>self\<close> and \<^verbatim>\<open>args[1:n]\<close>. If that call or the lookup of
  \<^verbatim>\<open>self.init_args\<close> raises, nothing else happens. Otherwise what follows is an initial
  part of: the assignments of \<^verbatim>\<open>args[n:]\<close> to the attributes named by
  \<^verbatim>\<open>self.init_args[n:]\<close> (paired in order, as \<^verbatim>\<open>zip\<close> pairs them), the assignments of the
  keyword arguments, the call of the wrapped function; and it is all of that when the run
  does not raise. So the wrapped function is called only after all these assignments.
\<close>

theorem trampoline_order:
  assumes "heap_fun h init = Some f" "fn_cls f = Some cls" "args = self # others"
    "py_super h cls self = Inr sup_obj"
    "super_getattr sup_obj ''init_args'' = Inr parent_args" "py_len parent_args = Inr n"
    and run: "trampoline_call env init fun args kwargs h = (tr, r)"
  shows "\<exists>rest. tr = Call (super_init sup_obj) (self # drop 1 (take n args)) [] # rest \<and>
           ((rest = [] \<and> isl r) \<or>
            (\<exists>h1 names.
               env_call env (super_init sup_obj) (self # drop 1 (take n args)) [] h = Inr h1 \<and>
               later_names h1 self n = Inr names \<and>
               prefix rest (assignments self (zip names (drop n args)) @
                            assignments self (keyword_pairs kwargs) @
                            [Call fun args kwargs]) \<and>
               (\<not> isl r \<longrightarrow> rest = assignments self (zip names (drop n args)) @
                                     assignments self (keyword_pairs kwargs) @
                                     [Call fun args kwargs])))"
proof -
  have pro: "trampoline_prologue h init args = Inr (self, sup_obj, n)"
    using assms(1-6) by (rule trampoline_prologue_eq)
  obtain tra ra where assign: "trampoline_assign env init args kwargs h = (tra, ra)"
    by (cases "trampoline_assign env init args kwargs h")
  from trampoline_assign_trace[OF pro assign] obtain rest where
    tra: "tra = Call (super_init sup_obj) (self # drop 1 (take n args)) [] # rest" and
    shape: "(rest = [] \<and> isl ra) \<or>
            (\<exists>h1 names.
               env_call env (super_init sup_obj) (self # drop 1 (take n args)) [] h = Inr h1 \<and>
               later_names h1 self n = Inr names \<and>
               prefix rest (assignments self (zip names (drop n args)) @
                            assignments self (keyword_pairs kwargs)) \<and>
               (\<not> isl ra \<longrightarrow> rest = assignments self (zip names (drop n args)) @
                                      assignments self (keyword_pairs kwargs)))"
    by blast
  show ?thesis
  proof (cases ra)
    case (Inl e)
    with assign run have same: "tr = tra" "r = Inl e"
      by (simp_all add: trampoline_call_assign_failed)
    from shape show ?thesis
    proof
      assume "rest = [] \<and> isl ra"
      with same tra show ?thesis by simp
    next
      assume "\<exists>h1 names.
               env_call env (super_init sup_obj) (self # drop 1 (take n args)) [] h = Inr h1 \<and>
               later_names h1 self n = Inr names \<and>
               prefix rest (assignments self (zip names (drop n args)) @
                            assignments self (keyword_pairs kwargs)) \<and>
               (\<not> isl ra \<longrightarrow> rest = assignments self (zip names (drop n args)) @
                                      assignments self (keyword_pairs kwargs))"
      then obtain h1 names where
        h1: "env_call env (super_init sup_obj) (self # drop 1 (take n args)) [] h = Inr h1"
          "later_names h1 self n = Inr names" and
        pre: "prefix rest (assignments self (zip names (drop n args)) @
                           assignments self (keyword_pairs kwargs))"
        by blast
      from pre have "prefix rest ((assignments self (zip names (drop n args)) @
                           assignments self (keyword_pairs kwargs)) @ [Call fun args kwargs])"
        by (rule prefix_prefix)
      with h1 same tra show ?thesis by auto
    qed
  next
    case (Inr h3)
    with assign run have after: "tr = tra @ [Call fun args kwargs]"
      by (simp add: trampoline_call_after_assign)
    from shape Inr obtain h1 names where
      h1: "env_call env (super_init sup_obj) (self # drop 1 (take n args)) [] h = Inr h1"
        "later_names h1 self n = Inr names" and
      all: "rest = assignments self (zip names (drop n args)) @
                   assignments self (keyword_pairs kwargs)"
      by auto
    from after tra all h1 show ?thesis by auto
  qed
qed

theorem trampoline_order_witness:
  "heap_fun instance_heap (PObj 11) = Some (cast_trampoline\<lparr>fn_cls := Some cast_class\<rparr>) \<and>
   fn_cls (cast_trampoline\<lparr>fn_cls := Some cast_class\<rparr>) = Some cast_class \<and>
   py_super instance_heap cast_class (PObj 20) = Inr [code_class, object_class] \<and>
   super_getattr [code_class, object_class] ''init_args''
     = Inr (PList [PStr ''self'', PStr ''site'']) \<and>
   py_len (PList [PStr ''self'', PStr ''site'']) = Inr 2 \<and>
   trampoline_call example_env (PObj 11) (PObj 3)
     [PObj 20, PStr ''s'', PStr ''e'', PStr ''t''] [] instance_heap
   = (Call (super_init [code_class, object_class])
        (PObj 20 # drop 1 (take 2 [PObj 20, PStr ''s'', PStr ''e'', PStr ''t''])) [] #
      assignments (PObj 20)
        (zip [PStr ''expr'', PStr ''type''] (drop 2 [PObj 20, PStr ''s'', PStr ''e'', PStr ''t''])) @
      assignments (PObj 20) (keyword_pairs []) @
      [Call (PObj 3) [PObj 20, PStr ''s'', PStr ''e'', PStr ''t''] []],
      Inr initialised_heap) \<and>
   env_call example_env (super_init [code_class, object_class])
     (PObj 20 # drop 1 (take 2 [PObj 20, PStr ''s'', PStr ''e'', PStr ''t''])) [] instance_heap
     = Inr super_done_heap \<and>
   later_names super_done_heap (PObj 20) 2 = Inr [PStr ''expr'', PStr ''type'']"
proof -
  let ?args = "[PObj 20, PStr ''s'', PStr ''e'', PStr ''t'']"
  have args: "?args = PObj 20 # [PStr ''s'', PStr ''e'', PStr ''t'']" by simp
  have call: "env_call example_env (super_init [code_class, object_class])
     (PObj 20 # drop 1 (take 2 ?args)) [] instance_heap = Inr super_done_heap"
    using example_super_call(1) example_prologue(6) by simp
  from trampoline_order[OF example_prologue(1,2) args example_prologue(3,4,5) example_run]
  obtain rest h1 names where
    tr: "[Call (PObj 2) [PObj 20, PStr ''s''] [],
          Setattr (PObj 20) (PStr ''expr'') (PStr ''e''),
          Setattr (PObj 20) (PStr ''type'') (PStr ''t''),
          Call (PObj 3) ?args []]
         = Call (super_init [code_class, object_class]) (PObj 20 # drop 1 (take 2 ?args)) [] # rest"
    and "env_call example_env (super_init [code_class, object_class])
           (PObj 20 # drop 1 (take 2 ?args)) [] instance_heap = Inr h1"
    and "later_names h1 (PObj 20) 2 = Inr names"
    and "rest = assignments (PObj 20) (zip names (drop 2 ?args)) @
                assignments (PObj 20) (keyword_pairs []) @ [Call (PObj 3) ?args []]"
    by auto
  with call example_super_call(2)
  have "rest = assignments (PObj 20) (zip [PStr ''expr'', PStr ''type''] (drop 2 ?args)) @
               assignments (PObj 20) (keyword_pairs []) @ [Call (PObj 3) ?args []]"
    by simp
  with tr example_run example_prologue call example_super_call(2) show ?thesis
    by simp
qed

text \<open>
  C10. When lines 77 to 88 of the trampoline complete, their events are the call of the
  superclass \<^verbatim>\<open>__init__\<close>, the assignments of the positional arguments, and then one
  \<^verbatim>\<open>setattr\<close> for each keyword argument, under its own name and in the order of
  \<^verbatim>\<open>kwargs\<close>, whatever the names are; the wrapped function is called next, in the heap these
  assignments left, with the same positional and keyword arguments.
\<close>

theorem keyword_arguments_assigned:
  assumes "heap_fun h init = Some f" "fn_cls f = Some cls" "args = self # others"
    "py_super h cls self = Inr sup_obj"
    "super_getattr sup_obj ''init_args'' = Inr parent_args" "py_len parent_args = Inr n"
    and assigned: "trampoline_assign env init args kwargs h = (tr, Inr h3)"
  shows "\<exists>h1 names.
           env_call env (super_init sup_obj) (self # drop 1 (take n args)) [] h = Inr h1 \<and>
           later_names h1 self n = Inr names \<and>
           tr = Call (super_init sup_obj) (self # drop 1 (take n args)) [] #
                assignments self (zip names (drop n args)) @
                map (\<lambda>(name, arg). Setattr self (PStr name) arg) kwargs \<and>
           trampoline_call env init fun args kwargs h
             = (tr @ [Call fun args kwargs], env_call env fun args kwargs h3)"
proof -
  have pro: "trampoline_prologue h init args = Inr (self, sup_obj, n)"
    using assms(1-6) by (rule trampoline_prologue_eq)
  from trampoline_assign_trace[OF pro assigned] obtain h1 names where
    "env_call env (super_init sup_obj) (self # drop 1 (take n args)) [] h = Inr h1"
    "later_names h1 self n = Inr names"
    "tr = Call (super_init sup_obj) (self # drop 1 (take n args)) [] #
          assignments self (zip names (drop n args)) @ assignments self (keyword_pairs kwargs)"
    by auto
  with trampoline_call_after_assign[OF assigned, of "fun"] show ?thesis
    by (auto simp: keyword_assignments)
qed

theorem keyword_arguments_assigned_witness:
  "heap_fun instance_heap (PObj 11) = Some (cast_trampoline\<lparr>fn_cls := Some cast_class\<rparr>) \<and>
   fn_cls (cast_trampoline\<lparr>fn_cls := Some cast_class\<rparr>) = Some cast_class \<and>
   py_super instance_heap cast_class (PObj 20) = Inr [code_class, object_class] \<and>
   super_getattr [code_class, object_class] ''init_args''
     = Inr (PList [PStr ''self'', PStr ''site'']) \<and>
   py_len (PList [PStr ''self'', PStr ''site'']) = Inr 2 \<and>
   trampoline_assign example_env (PObj 11) [PObj 20, PStr ''s'', PStr ''e'']
     [(''type'', PStr ''t''), (''context'', PStr ''c'')] instance_heap
   = ([Call (PObj 2) [PObj 20, PStr ''s''] [],
       Setattr (PObj 20) (PStr ''expr'') (PStr ''e''),
       Setattr (PObj 20) (PStr ''type'') (PStr ''t''),
       Setattr (PObj 20) (PStr ''context'') (PStr ''c'')],
      Inr keyword_heap) \<and>
   trampoline_call example_env (PObj 11) (PObj 3) [PObj 20, PStr ''s'', PStr ''e'']
     [(''type'', PStr ''t''), (''context'', PStr ''c'')] instance_heap
   = ([Call (PObj 2) [PObj 20, PStr ''s''] [],
       Setattr (PObj 20) (PStr ''expr'') (PStr ''e''),
       Setattr (PObj 20) (PStr ''type'') (PStr ''t''),
       Setattr (PObj 20) (PStr ''context'') (PStr ''c''),
       Call (PObj 3) [PObj 20, PStr ''s'', PStr ''e'']
         [(''type'', PStr ''t''), (''context'', PStr ''c'')]],
      env_call example_env (PObj 3) [PObj 20, PStr ''s'', PStr ''e'']
        [(''type'', PStr ''t''), (''context'', PStr ''c'')] keyword_heap)"
proof -
  have args: "[PObj 20, PStr ''s'', PStr ''e''] = PObj 20 # [PStr ''s'', PStr ''e'']"
    by simp
  from keyword_arguments_assigned
    [OF example_prologue(1,2) args example_prologue(3,4,5) example_keyword_assign,
     of "PObj 3"]
  have "trampoline_call example_env (PObj 11) (PObj 3) [PObj 20, PStr ''s'', PStr ''e'']
          [(''type'', PStr ''t''), (''context'', PStr ''c'')] instance_heap
        = ([Call (PObj 2) [PObj 20, PStr ''s''] [],
            Setattr (PObj 20) (PStr ''expr'') (PStr ''e''),
            Setattr (PObj 20) (PStr ''type'') (PStr ''t''),
            Setattr (PObj 20) (PStr ''context'') (PStr ''c'')] @
           [Call (PObj 3) [PObj 20, PStr ''s'', PStr ''e'']
              [(''type'', PStr ''t''), (''context'', PStr ''c'')]],
           env_call example_env (PObj 3) [PObj 20, PStr ''s'', PStr ''e'']
             [(''type'', PStr ''t''), (''context'', PStr ''c'')] keyword_heap)"
    by blast
  with example_prologue example_keyword_assign show ?thesis by simp
qed




section \<open>Further properties\<close>

text \<open>
  The comment of line 49: \<^verbatim>\<open>auto_init\<close> does not work on a base class. A body whose
  \<^verbatim>\<open>__init__\<close> carries a non-empty \<^verbatim>\<open>auto_init_args\<close> is refused with an
  \<^verbatim>\<open>AssertionError\<close> when there is no base or the first base is not a \<^verbatim>\<open>SlotsMeta\<close>
  class.
\<close>

theorem auto_init_needs_slotsmeta_base:
  assumes "map_of dct ''__init__'' = Some init"
    and "truthy (getattr_auto_init_args h init)"
    and "\<not> first_is_slotsmeta bases"
  shows "\<exists>a. SlotsMeta_new h clsname bases dct = Inl (AssertionError a)"
proof (cases "check_linear bases")
  case (Inl e)
  with check_linear_error[OF Inl] show ?thesis
    by (auto simp: SlotsMeta_new_def)
next
  case (Inr u)
  with assms show ?thesis
    by (simp add: SlotsMeta_new_def parent_init_args_of_def)
qed

theorem auto_init_needs_slotsmeta_base_witness:
  "map_of [(''__init__'', PObj 11)] ''__init__'' = Some (PObj 11) \<and>
   truthy (getattr_auto_init_args decorated_heap (PObj 11)) \<and>
   \<not> first_is_slotsmeta [object_class] \<and>
   SlotsMeta_new decorated_heap ''Root'' [object_class] [(''__init__'', PObj 11)]
     = Inl (AssertionError NoMessage)"
proof -
  have body: "map_of [(''__init__'', PObj 11)] ''__init__'' = Some (PObj 11)"
    by simp
  have decorated: "truthy (getattr_auto_init_args decorated_heap (PObj 11))"
    by code_simp
  have plain_base: "\<not> first_is_slotsmeta [object_class]"
    by code_simp
  from auto_init_needs_slotsmeta_base[OF body decorated plain_base, of "''Root''"]
  obtain a where "SlotsMeta_new decorated_heap ''Root'' [object_class] [(''__init__'', PObj 11)]
                    = Inl (AssertionError a)"
    by blast
  moreover have "SlotsMeta_new decorated_heap ''Root'' [object_class] [(''__init__'', PObj 11)]
                   = Inl (AssertionError NoMessage)"
    by code_simp
  ultimately show ?thesis using body decorated plain_base by simp
qed

text \<open>
  The assertion of line 77: a trampoline whose function object has no \<^verbatim>\<open>cls\<close>, because no
  \<^verbatim>\<open>SlotsMeta\<close> class was created with it, raises the \<^verbatim>\<open>AssertionError\<close> with the message
  of lines 77 and 78 before it calls anything.
\<close>

theorem trampoline_needs_class:
  assumes "heap_fun h init = Some f" and "fn_cls f = None"
  shows "trampoline_call env init fun args kwargs h
           = ([], Inl (AssertionError (Message auto_init_message)))"
  using assms
  by (simp add: trampoline_call_def trampoline_assign_def trampoline_prologue_def)

theorem trampoline_needs_class_witness:
  "heap_fun decorated_heap (PObj 11) = Some cast_trampoline \<and>
   fn_cls cast_trampoline = None \<and>
   trampoline_call example_env (PObj 11) (PObj 3) [PObj 20, PStr ''s''] [] decorated_heap
     = ([], Inl (AssertionError (Message auto_init_message)))"
proof -
  have t: "heap_fun decorated_heap (PObj 11) = Some cast_trampoline"
    by code_simp
  have c: "fn_cls cast_trampoline = None"
    by (simp add: cast_trampoline_def)
  from trampoline_needs_class[OF t c] t c show ?thesis by simp
qed

text \<open>
  The docstring of \<^verbatim>\<open>SlotsMeta\<close> (lines 14 to 16): every class that is created is a
  \<^verbatim>\<open>SlotsMeta\<close> class and has \<^verbatim>\<open>__slots__\<close> in its namespace, and a class whose body
  has neither \<^verbatim>\<open>__init__\<close> nor \<^verbatim>\<open>slots\<close> has the empty tuple there.
\<close>

theorem every_class_gets_slots:
  assumes "SlotsMeta_new h clsname bases dct = Inr (c, h')"
  shows "kmeta c \<and> (\<exists>v. map_of (kdict c) ''__slots__'' = Some v) \<and>
         (map_of dct ''__init__'' = None \<and> map_of dct ''slots'' = None \<longrightarrow>
            map_of (kdict c) ''__slots__'' = Some (PTuple []))"
proof (cases "map_of dct ''__init__''")
  case None
  let ?dct' = "AList.update ''__slots__'' (dict_get dct ''slots'' (PTuple [])) dct"
  from assms have chk: "check_linear bases = Inr ()"
    by (rule SlotsMeta_new_success_check)
  with assms None have "type_new h clsname bases ?dct' = Inr (c, h')"
    by (auto simp: SlotsMeta_new_def Let_def split: if_splits list.splits)
  from type_new_result[OF this] show ?thesis
    by (auto simp: update_conv' dict_get_def)
next
  case (Some init)
  from SlotsMeta_new_init_success[OF assms Some] obtain ia pa where
    patched: "patch_dict dct ia pa = Inr (kdict c)"
    by blast
  from assms have chk: "check_linear bases = Inr ()"
    by (rule SlotsMeta_new_success_check)
  from assms chk Some have "\<exists>dct' h0. type_new h clsname bases dct' = Inr (c, h0)"
    by (auto simp: SlotsMeta_new_def Let_def ebind_eq_Inr split: if_splits)
  then have "kmeta c"
    using type_new_result by blast
  with patch_dict_lookup(2)[OF patched] Some show ?thesis by simp
qed

theorem every_class_gets_slots_witness:
  "SlotsMeta_new cast_heap ''Mixin'' [code_class] [] = Inr (mixin_class, cast_heap\<lparr>next_id := 14\<rparr>) \<and>
   kmeta mixin_class \<and> map_of [] ''__init__'' = (None :: pyval option) \<and>
   map_of [] ''slots'' = (None :: pyval option) \<and>
   map_of (kdict mixin_class) ''__slots__'' = Some (PTuple [])"
proof -
  from every_class_gets_slots[OF example_mixin]
  have "kmeta mixin_class" "map_of (kdict mixin_class) ''__slots__'' = Some (PTuple [])"
    by simp_all
  with example_mixin show ?thesis by simp
qed

end
